theory Spec2Isabelle
  imports Main "HOL-Library.AList" "HOL-Library.Char_ord" "HOL-Library.List_Lexorder"
begin

section \<open>The recon engine: cmd/recon-engine/main.go\<close>

text \<open>
  The program runs external discovery tools (subfinder, optionally amass), removes
  duplicate host names, feeds them to httpx, turns every line httpx prints into a
  \<open>Result\<close>, optionally enriches it with whatweb, and prints one JSON object per
  record. The development follows the richer of the two variants of \<open>main.go\<close> (the one
  with the \<open>-deep\<close> and \<open>-fingerprint\<close> flags).
\<close>

subsection \<open>JSON text and what \<open>json.Unmarshal\<close> makes of it\<close>

text \<open>
  Every line the program decodes is handed to \<open>json.Unmarshal\<close>, and every record it
  prints goes through \<open>json.Encoder\<close>. A piece of JSON text is represented by the
  value it spells; \<open>JNum\<close> is a number written as an integer literal, \<open>JFloat\<close> a number
  written with a fraction or an exponent (kept as its text). Bytes that are not one
  well-formed JSON value are \<open>NotJSON\<close>.
\<close>

datatype json =
    JNull
  | JBool bool
  | JNum int
  | JFloat string
  | JStr string
  | JArr "json list"
  | JObj "(string \<times> json) list"

datatype bytes = NotJSON | JSON json

text \<open>
  Decoding follows the rules of \<open>encoding/json\<close>. A value of the wrong JSON type is an
  error (\<open>None\<close>); the decoder would go on with the rest of the text, but all three
  callers in \<open>main.go\<close> discard the target once an error is returned. \<open>null\<close> leaves a
  string, an int or a struct as it is and sets a slice or a map to nil. The first
  argument is the value the target holds before the call.
\<close>

definition dec_string :: "string \<Rightarrow> json \<Rightarrow> string option" where
  "dec_string cur j = (case j of JStr s \<Rightarrow> Some s | JNull \<Rightarrow> Some cur | _ \<Rightarrow> None)"

text \<open>Go's \<open>int\<close> has 64 bits on the platforms the tools run on; a literal out of range is an error.\<close>

definition dec_int :: "int \<Rightarrow> json \<Rightarrow> int option" where
  "dec_int cur j =
     (case j of
        JNum n \<Rightarrow> (if - (2 ^ 63) \<le> n \<and> n < 2 ^ 63 then Some n else None)
      | JNull \<Rightarrow> Some cur
      | _ \<Rightarrow> None)"

text \<open>
  An array is decoded element by element into the slice: element \<open>i\<close> is decoded into what
  the slice held at \<open>i\<close>, or into a zero value beyond its length. A nil slice and an empty
  one are both the empty list: the program only ranges over them, takes their length or
  appends to them.
\<close>

fun dec_elems :: "('a \<Rightarrow> json \<Rightarrow> 'a option) \<Rightarrow> 'a \<Rightarrow> 'a list \<Rightarrow> json list \<Rightarrow> 'a list option" where
  "dec_elems dec zero cur [] = Some []"
| "dec_elems dec zero cur (j # js) =
     (case dec (case cur of [] \<Rightarrow> zero | c # _ \<Rightarrow> c) j of
        None \<Rightarrow> None
      | Some x \<Rightarrow>
          (case dec_elems dec zero (tl cur) js of None \<Rightarrow> None | Some xs \<Rightarrow> Some (x # xs)))"

definition dec_slice :: "('a \<Rightarrow> json \<Rightarrow> 'a option) \<Rightarrow> 'a \<Rightarrow> 'a list \<Rightarrow> json \<Rightarrow> 'a list option" where
  "dec_slice dec zero cur j =
     (case j of JArr js \<Rightarrow> dec_elems dec zero cur js | JNull \<Rightarrow> Some [] | _ \<Rightarrow> None)"

text \<open>
  An object key selects the struct field whose tag it equals, ignoring the case of ASCII
  letters (the tags of this program are all lower case, so folding the key to lower case
  and comparing is the same as Go's exact-then-folded lookup). A key that matches no field
  is skipped together with its value. Keys are taken in the order of the text, so a
  repeated key decodes on top of what the earlier one left.
\<close>

definition lower :: "char \<Rightarrow> char" where
  "lower c =
     (case map_of (zip ''ABCDEFGHIJKLMNOPQRSTUVWXYZ'' ''abcdefghijklmnopqrstuvwxyz'') c of
        Some l \<Rightarrow> l
      | None \<Rightarrow> c)"

fun dec_fields :: "(string \<Rightarrow> json \<Rightarrow> 'a \<Rightarrow> 'a option) \<Rightarrow> (string \<times> json) list \<Rightarrow> 'a \<Rightarrow> 'a option" where
  "dec_fields field [] v = Some v"
| "dec_fields field ((k, j) # kvs) v =
     (case field (map lower k) j v of None \<Rightarrow> None | Some v' \<Rightarrow> dec_fields field kvs v')"

definition dec_struct :: "(string \<Rightarrow> json \<Rightarrow> 'a \<Rightarrow> 'a option) \<Rightarrow> 'a \<Rightarrow> json \<Rightarrow> 'a option" where
  "dec_struct field cur j =
     (case j of JObj kvs \<Rightarrow> dec_fields field kvs cur | JNull \<Rightarrow> Some cur | _ \<Rightarrow> None)"

text \<open>
  A Go map is an association list without repeated keys. Each value of a JSON object is
  decoded into a fresh zero element and stored under its key, a later entry replacing an
  earlier one with the same key.
\<close>

fun dec_entries :: "(json \<Rightarrow> 'a option) \<Rightarrow> (string \<times> json) list \<Rightarrow> (string \<times> 'a) list \<Rightarrow> (string \<times> 'a) list option" where
  "dec_entries dec [] m = Some m"
| "dec_entries dec ((k, j) # kvs) m =
     (case dec j of None \<Rightarrow> None | Some v \<Rightarrow> dec_entries dec kvs (AList.update k v m))"

definition dec_map :: "(json \<Rightarrow> 'a option) \<Rightarrow> (string \<times> 'a) list \<Rightarrow> json \<Rightarrow> (string \<times> 'a) list option" where
  "dec_map dec cur j =
     (case j of JObj kvs \<Rightarrow> dec_entries dec kvs cur | JNull \<Rightarrow> Some [] | _ \<Rightarrow> None)"

definition json_field :: "json \<Rightarrow> string \<Rightarrow> json option" where
  "json_field j k = (case j of JObj kvs \<Rightarrow> map_of kvs k | _ \<Rightarrow> None)"

subsection \<open>The structs of main.go (lines 17-58, 86-89)\<close>

record HttpxResult =
  Input :: string
  Url :: string
  hx_StatusCode :: int
  hx_Title :: string
  Tech :: "string list"
  WebServer :: string

record Address =
  addr_Asn :: int
  Desc :: string

record AmassResult =
  Name :: string
  Domain :: string
  Addresses :: "Address list"

record Plugin =
  pl_String :: "string list"
  pl_Version :: "string list"

record WhatWebResult =
  Target :: string
  Plugins :: "(string \<times> Plugin) list"

record Infrastructure =
  inf_Asn :: int
  inf_Org :: string

text \<open>
  \<open>Versions\<close> is \<open>None\<close> while the map is nil. \<open>Vulnerabilities\<close> is a slice of JSON
  objects.
\<close>

record Result =
  Timestamp :: string
  Subdomain :: string
  StatusCode :: int
  Title :: string
  TechStack :: "string list"
  Vulnerabilities :: "(string \<times> json) list list"
  Source :: string
  Asn :: string
  Org :: string
  Versions :: "(string \<times> string) list option"

subsection \<open>Decoding by the struct tags\<close>

definition HttpxResult_field :: "string \<Rightarrow> json \<Rightarrow> HttpxResult \<Rightarrow> HttpxResult option" where
  "HttpxResult_field k j h =
     (if k = ''input'' then map_option (\<lambda>v. h\<lparr>Input := v\<rparr>) (dec_string (Input h) j)
      else if k = ''url'' then map_option (\<lambda>v. h\<lparr>Url := v\<rparr>) (dec_string (Url h) j)
      else if k = ''status_code'' then
        map_option (\<lambda>v. h\<lparr>hx_StatusCode := v\<rparr>) (dec_int (hx_StatusCode h) j)
      else if k = ''title'' then map_option (\<lambda>v. h\<lparr>hx_Title := v\<rparr>) (dec_string (hx_Title h) j)
      else if k = ''tech'' then
        map_option (\<lambda>v. h\<lparr>Tech := v\<rparr>) (dec_slice dec_string [] (Tech h) j)
      else if k = ''webserver'' then
        map_option (\<lambda>v. h\<lparr>WebServer := v\<rparr>) (dec_string (WebServer h) j)
      else Some h)"

definition zero_HttpxResult :: HttpxResult where
  "zero_HttpxResult =
     \<lparr>Input = [], Url = [], hx_StatusCode = 0, hx_Title = [], Tech = [], WebServer = []\<rparr>"

text \<open>\<open>var hRes HttpxResult; json.Unmarshal(line, &hRes)\<close> (lines 209-210).\<close>

definition Unmarshal_HttpxResult :: "bytes \<Rightarrow> HttpxResult option" where
  "Unmarshal_HttpxResult b =
     (case b of NotJSON \<Rightarrow> None | JSON j \<Rightarrow> dec_struct HttpxResult_field zero_HttpxResult j)"

definition Address_field :: "string \<Rightarrow> json \<Rightarrow> Address \<Rightarrow> Address option" where
  "Address_field k j a =
     (if k = ''asn'' then map_option (\<lambda>v. a\<lparr>addr_Asn := v\<rparr>) (dec_int (addr_Asn a) j)
      else if k = ''desc'' then map_option (\<lambda>v. a\<lparr>Desc := v\<rparr>) (dec_string (Desc a) j)
      else Some a)"

definition zero_Address :: Address where
  "zero_Address = \<lparr>addr_Asn = 0, Desc = []\<rparr>"

definition AmassResult_field :: "string \<Rightarrow> json \<Rightarrow> AmassResult \<Rightarrow> AmassResult option" where
  "AmassResult_field k j a =
     (if k = ''name'' then map_option (\<lambda>v. a\<lparr>Name := v\<rparr>) (dec_string (Name a) j)
      else if k = ''domain'' then map_option (\<lambda>v. a\<lparr>Domain := v\<rparr>) (dec_string (Domain a) j)
      else if k = ''addresses'' then
        map_option (\<lambda>v. a\<lparr>Addresses := v\<rparr>)
          (dec_slice (dec_struct Address_field) zero_Address (Addresses a) j)
      else Some a)"

definition zero_AmassResult :: AmassResult where
  "zero_AmassResult = \<lparr>Name = [], Domain = [], Addresses = []\<rparr>"

text \<open>\<open>var ar AmassResult; json.Unmarshal(line, &ar)\<close> (lines 141-142).\<close>

definition Unmarshal_AmassResult :: "bytes \<Rightarrow> AmassResult option" where
  "Unmarshal_AmassResult b =
     (case b of NotJSON \<Rightarrow> None | JSON j \<Rightarrow> dec_struct AmassResult_field zero_AmassResult j)"

definition Plugin_field :: "string \<Rightarrow> json \<Rightarrow> Plugin \<Rightarrow> Plugin option" where
  "Plugin_field k j p =
     (if k = ''string'' then
        map_option (\<lambda>v. p\<lparr>pl_String := v\<rparr>) (dec_slice dec_string [] (pl_String p) j)
      else if k = ''version'' then
        map_option (\<lambda>v. p\<lparr>pl_Version := v\<rparr>) (dec_slice dec_string [] (pl_Version p) j)
      else Some p)"

definition zero_Plugin :: Plugin where
  "zero_Plugin = \<lparr>pl_String = [], pl_Version = []\<rparr>"

definition WhatWebResult_field :: "string \<Rightarrow> json \<Rightarrow> WhatWebResult \<Rightarrow> WhatWebResult option" where
  "WhatWebResult_field k j w =
     (if k = ''target'' then map_option (\<lambda>v. w\<lparr>Target := v\<rparr>) (dec_string (Target w) j)
      else if k = ''plugins'' then
        map_option (\<lambda>v. w\<lparr>Plugins := v\<rparr>)
          (dec_map (dec_struct Plugin_field zero_Plugin) (Plugins w) j)
      else Some w)"

definition zero_WhatWebResult :: WhatWebResult where
  "zero_WhatWebResult = \<lparr>Target = [], Plugins = []\<rparr>"

text \<open>\<open>var wwResults []WhatWebResult; json.Unmarshal(wwOut, &wwResults)\<close> (lines 241-242).\<close>

definition Unmarshal_WhatWebResults :: "bytes \<Rightarrow> WhatWebResult list option" where
  "Unmarshal_WhatWebResults b =
     (case b of
        NotJSON \<Rightarrow> None
      | JSON j \<Rightarrow> dec_slice (dec_struct WhatWebResult_field) zero_WhatWebResult [] j)"

subsection \<open>Merging plugin names into the technology list (main.go, lines 253-264)\<close>

text \<open>
  The inner loop \<open>for _, t := range res.TechStack { if t == plugin { found = true; break } }\<close>:
  a linear search that stops at the first hit.
\<close>

fun found :: "string \<Rightarrow> string list \<Rightarrow> bool" where
  "found plugin [] = False"
| "found plugin (t # ts) = (if t = plugin then True else found plugin ts)"

text \<open>
  The outer loop \<open>for plugin := range wwResults[0].Plugins\<close>, given the keys in the order the
  range statement visits them: a plugin that is not found is appended.
\<close>

fun merge_plugins :: "string list \<Rightarrow> string list \<Rightarrow> string list" where
  "merge_plugins techStack [] = techStack"
| "merge_plugins techStack (plugin # plugins) =
     merge_plugins (if found plugin techStack then techStack else techStack @ [plugin]) plugins"

subsection \<open>Formatting: \<open>fmt.Sprintf("AS%d", _)\<close>, \<open>strings.Join\<close> and \<open>time.RFC3339\<close>\<close>

definition digit_char :: "nat \<Rightarrow> char" where
  "digit_char n = ''0123456789'' ! (n mod 10)"

function decimal :: "nat \<Rightarrow> string" where
  "decimal n = (if n < 10 then [digit_char n] else decimal (n div 10) @ [digit_char (n mod 10)])"
  by pat_completeness auto
termination
proof (relation "measure (\<lambda>n. n)")
  show "wf (measure (\<lambda>n::nat. n))" by simp
next
  fix n :: nat
  assume "\<not> n < 10"
  then have "n div 10 < n" by (simp add: div_less_dividend)
  then show "(n div 10, n) \<in> measure (\<lambda>n. n)" by simp
qed

declare decimal.simps [simp del]

text \<open>The verb \<open>%d\<close> applied to an int.\<close>

definition Sprintf_d :: "int \<Rightarrow> string" where
  "Sprintf_d i = (if i < 0 then CHR ''-'' # decimal (nat (- i)) else decimal (nat i))"

fun Join :: "string list \<Rightarrow> string \<Rightarrow> string" where
  "Join [] sep = []"
| "Join [x] sep = x"
| "Join (x # y # ys) sep = x @ sep @ Join (y # ys) sep"

text \<open>
  A reading of the wall clock, \<open>time.Now()\<close>, by its calendar fields; \<open>zone_offset\<close> is the
  local zone's offset east of UTC in seconds.
\<close>

record Time =
  year :: nat
  month :: nat
  day :: nat
  hour :: nat
  minute :: nat
  second :: nat
  zone_offset :: int

text \<open>The standard library's \<open>appendInt\<close>: decimal, padded with zeros to at least \<open>width\<close>.\<close>

definition appendInt :: "nat \<Rightarrow> nat \<Rightarrow> string" where
  "appendInt x width = replicate (width - length (decimal x)) (CHR ''0'') @ decimal x"

text \<open>
  The zone of the layout \<open>Z07:00\<close>: \<open>Z\<close> for offset zero, otherwise sign, hours and minutes.
  Go's integer division truncates towards zero.
\<close>

definition format_zone :: "int \<Rightarrow> string" where
  "format_zone offset =
     (if offset = 0 then ''Z''
      else (let zone = (if offset < 0 then - ((- offset) div 60) else offset div 60);
                sign = (if zone < 0 then CHR ''-'' else CHR ''+'');
                zone = nat \<bar>zone\<bar>
            in sign # appendInt (zone div 60) 2 @ '':'' @ appendInt (zone mod 60) 2))"

text \<open>\<open>t.Format(time.RFC3339)\<close>, layout \<open>2006-01-02T15:04:05Z07:00\<close>.\<close>

definition format_RFC3339 :: "Time \<Rightarrow> string" where
  "format_RFC3339 t =
     appendInt (year t) 4 @ ''-'' @ appendInt (month t) 2 @ ''-'' @ appendInt (day t) 2 @ ''T''
     @ appendInt (hour t) 2 @ '':'' @ appendInt (minute t) 2 @ '':'' @ appendInt (second t) 2
     @ format_zone (zone_offset t)"

text \<open>
  The shape RFC 3339 asks of a timestamp:
  four digits, \<open>-\<close>, two digits, \<open>-\<close>, two digits, \<open>T\<close>, two digits, \<open>:\<close>, two digits, \<open>:\<close>, two
  digits, and then \<open>Z\<close> or a sign, two digits, \<open>:\<close>, two digits.
\<close>

definition is_digit :: "char \<Rightarrow> bool" where
  "is_digit c = (c \<in> set ''0123456789'')"

fun digits :: "nat \<Rightarrow> string \<Rightarrow> string option" where
  "digits 0 s = Some s"
| "digits (Suc n) [] = None"
| "digits (Suc n) (c # s) = (if is_digit c then digits n s else None)"

fun lit :: "string \<Rightarrow> string \<Rightarrow> string option" where
  "lit cs [] = None"
| "lit cs (c # s) = (if c \<in> set cs then Some s else None)"

definition is_RFC3339 :: "string \<Rightarrow> bool" where
  "is_RFC3339 s =
     (case Option.bind (Option.bind (Option.bind (Option.bind (Option.bind (Option.bind
            (Option.bind (Option.bind (Option.bind (Option.bind (digits 4 s)
              (lit ''-'')) (digits 2)) (lit ''-'')) (digits 2)) (lit ''T''))
              (digits 2)) (lit '':'')) (digits 2)) (lit '':'')) (digits 2) of
        None \<Rightarrow> False
      | Some z \<Rightarrow>
          z = ''Z''
          \<or> Option.bind (Option.bind (Option.bind (lit ''+-'' z) (digits 2)) (lit '':''))
               (digits 2) = Some [])"

text \<open>The clock readings \<open>time.Now()\<close> can return: calendar fields in their ranges.\<close>

definition valid_Time :: "Time \<Rightarrow> bool" where
  "valid_Time t =
     (year t \<le> 9999 \<and> 1 \<le> month t \<and> month t \<le> 12 \<and> 1 \<le> day t \<and> day t \<le> 31
      \<and> hour t < 24 \<and> minute t < 60 \<and> second t < 60 \<and> \<bar>zone_offset t\<bar> < 86400)"

subsection \<open>Encoding a \<open>Result\<close> (struct tags, lines 18-29)\<close>

text \<open>
  The encoder writes the fields in the order of the struct. A nil slice is written as
  \<open>null\<close>; \<open>TechStack\<close> is nil exactly when it is empty, because \<open>extractTech\<close> appends to a
  nil slice and the merge only ever appends an element. A field tagged \<open>omitempty\<close> is left
  out when it is the empty string or a map without entries. The keys of a map are written
  in sorted order.
\<close>

definition encode_Result :: "Result \<Rightarrow> json" where
  "encode_Result r =
     JObj ([(''timestamp'', JStr (Timestamp r)),
            (''subdomain'', JStr (Subdomain r)),
            (''status_code'', JNum (StatusCode r)),
            (''title'', JStr (Title r)),
            (''tech_stack'', if TechStack r = [] then JNull else JArr (map JStr (TechStack r))),
            (''vulnerabilities'', JArr (map JObj (Vulnerabilities r))),
            (''source'', JStr (Source r))]
           @ (if Asn r = [] then [] else [(''asn'', JStr (Asn r))])
           @ (if Org r = [] then [] else [(''org'', JStr (Org r))])
           @ (case Versions r of
                None \<Rightarrow> []
              | Some m \<Rightarrow>
                  if m = [] then []
                  else [(''versions'', JObj (map (\<lambda>(k, v). (k, JStr v)) (sort_key fst m)))]))"

subsection \<open>Building the record for one line of httpx output (lines 207-272)\<close>

text \<open>\<open>extractTech\<close> (lines 301-305): the elements of \<open>h.Tech\<close> appended to a nil slice.\<close>

definition extractTech :: "HttpxResult \<Rightarrow> string list" where
  "extractTech h = [] @ Tech h"

text \<open>
  What the loop body reads from outside the program while it handles one line: the clock,
  the contents of \<open>infraMap\<close> at the moment line 227 holds the lock (the discovery
  goroutines write to it concurrently), the outcome of \<open>wwCmd.Output()\<close> should whatweb be
  run (\<open>Failed\<close>: the error is not nil), and the order in which the \<open>range\<close> statements visit
  the keys of a map, which Go leaves unspecified: keys are visited by increasing rank.
\<close>

datatype cmd_output = Failed | Stdout bytes

record line_env =
  clock :: Time
  index :: "(string \<times> Infrastructure) list"
  whatweb_out :: cmd_output
  range_rank :: "string \<Rightarrow> nat"

text \<open>The struct literal of lines 215-223; the fields it does not name are zero.\<close>

definition new_Result :: "Time \<Rightarrow> HttpxResult \<Rightarrow> Result" where
  "new_Result t hRes =
     \<lparr>Timestamp = format_RFC3339 t,
      Subdomain = Input hRes,
      StatusCode = hx_StatusCode hRes,
      Title = hx_Title hRes,
      TechStack = extractTech hRes,
      Vulnerabilities = [],
      Source = ''recon_pipeline'',
      Asn = [],
      Org = [],
      Versions = None\<rparr>"

text \<open>The join with the infrastructure index, lines 226-231.\<close>

definition join_infra :: "(string \<times> Infrastructure) list \<Rightarrow> HttpxResult \<Rightarrow> Result \<Rightarrow> Result" where
  "join_infra infraMap hRes res =
     (case map_of infraMap (Input hRes) of
        Some i \<Rightarrow> res\<lparr>Asn := ''AS'' @ Sprintf_d (inf_Asn i), Org := inf_Org i\<rparr>
      | None \<Rightarrow> res)"

text \<open>The guard of line 234 and the command of line 236.\<close>

definition fingerprinted :: "bool \<Rightarrow> HttpxResult \<Rightarrow> bool" where
  "fingerprinted useFingerprint hRes = (useFingerprint \<and> hx_StatusCode hRes > 0)"

definition whatweb_argv :: "HttpxResult \<Rightarrow> string list" where
  "whatweb_argv hRes = [''whatweb'', ''--aggression'', ''3'', ''--format=json'', Url hRes]"

text \<open>The first loop over the plugins, lines 243-248.\<close>

fun versions_of :: "(string \<times> Plugin) list \<Rightarrow> (string \<times> string) list \<Rightarrow> (string \<times> string) list" where
  "versions_of [] versions = versions"
| "versions_of ((plugin, info) # rest) versions =
     versions_of rest
       (if length (pl_Version info) > 0
        then AList.update plugin (Join (pl_Version info) '', '') versions
        else versions)"

text \<open>
  Lines 239-266: what the output of whatweb does to the record. Both loops visit the
  plugins by increasing rank.
\<close>

definition apply_whatweb :: "line_env \<Rightarrow> Result \<Rightarrow> Result" where
  "apply_whatweb le res =
     (case whatweb_out le of
        Failed \<Rightarrow> res
      | Stdout wwOut \<Rightarrow>
          (case Unmarshal_WhatWebResults wwOut of
             None \<Rightarrow> res
           | Some [] \<Rightarrow> res
           | Some (w # _) \<Rightarrow>
               (let plugins = sort_key (\<lambda>(plugin, info). range_rank le plugin) (Plugins w)
                in res\<lparr>Versions := Some (versions_of plugins []),
                       TechStack := merge_plugins (TechStack res) (map fst plugins)\<rparr>)))"

text \<open>The record the loop body holds when it reaches the encoder on line 269.\<close>

definition final_Result :: "bool \<Rightarrow> line_env \<Rightarrow> HttpxResult \<Rightarrow> Result" where
  "final_Result useFingerprint le hRes =
     (let res = join_infra (index le) hRes (new_Result (clock le) hRes)
      in if fingerprinted useFingerprint hRes then apply_whatweb le res else res)"

subsection \<open>The main goroutine (lines 65-275) and its helpers (lines 277-310)\<close>

text \<open>
  The flags and positional arguments after \<open>flag.Parse()\<close>, and what the operating system
  answers: the binaries \<open>exec.LookPath\<close> finds, the error (if any) of the two pipe calls
  and of the two \<open>Start\<close> calls of the main goroutine, and the lines the scanner reads from
  httpx, each with the surroundings of its loop iteration.
\<close>

record config =
  prog :: string
  useDeep :: bool
  useFingerprint :: bool
  args :: "string list"

record env =
  on_path :: "string list"
  stdin_pipe_err :: "string option"
  stdout_pipe_err :: "string option"
  httpx_start_err :: "string option"
  nmap_start_err :: "string option"
  httpx_lines :: "(bytes \<times> line_env) list"

text \<open>
  What a run of the main goroutine does: the JSON values it writes to standard output (one
  per line), the lines it writes to standard error, the commands it asks the operating
  system to run, the goroutines it launches, and the status it exits with. The discovery
  goroutines start their own processes; they are described in the next subsection.
\<close>

datatype goroutine = Subfinder_task | Amass_task | Nmap_wait | Coordinator_task | Feeder_task

record run =
  stdout :: "json list"
  stderr :: "string list"
  spawned :: "string list list"
  goroutines :: "goroutine list"
  exit_status :: nat

text \<open>\<open>checkBinaries\<close>, lines 277-299.\<close>

definition bins :: "config \<Rightarrow> string list" where
  "bins c =
     [''subfinder'', ''httpx'', ''nmap'']
     @ (if useDeep c then [''amass''] else [])
     @ (if useFingerprint c then [''whatweb''] else [])"

definition errRes :: "string \<Rightarrow> json" where
  "errRes bin =
     JObj [(''error'', JStr (''Missing binary: '' @ bin)),
           (''message'', JStr ''Please install required tools in PATH'')]"

text \<open>The loop of lines 289-298; \<open>Some\<close> is the object printed before \<open>os.Exit(1)\<close>.\<close>

fun checkBinaries_loop :: "string list \<Rightarrow> string list \<Rightarrow> json option" where
  "checkBinaries_loop path [] = None"
| "checkBinaries_loop path (bin # rest) =
     (if bin \<in> set path then checkBinaries_loop path rest else Some (errRes bin))"

definition checkBinaries :: "config \<Rightarrow> env \<Rightarrow> json option" where
  "checkBinaries c e = checkBinaries_loop (on_path e) (bins c)"

text \<open>\<open>fatalError\<close>, lines 307-310: one line on standard error, exit status 1.\<close>

definition fatalError :: "string \<Rightarrow> string \<Rightarrow> run \<Rightarrow> run" where
  "fatalError msg err r =
     r\<lparr>stderr := stderr r @ [''Error: '' @ msg @ '': '' @ err], exit_status := 1\<rparr>"

definition httpx_argv :: "string list" where
  "httpx_argv = [''httpx'', ''-silent'', ''-json'', ''-title'', ''-tech-detect'', ''-status-code'']"

definition nmap_argv :: "string \<Rightarrow> string list" where
  "nmap_argv target = [''nmap'', ''-F'', ''--top-ports'', ''100'', target, ''-oN'', ''nmap-scan.txt'']"

text \<open>
  One iteration of the loop of lines 207-272. Standard output is taken to accept every
  write, so the branch of line 270, which reports a failed write on standard error, is not
  taken.
\<close>

definition process_line :: "config \<Rightarrow> bytes \<times> line_env \<Rightarrow> run \<Rightarrow> run" where
  "process_line c l r =
     (case Unmarshal_HttpxResult (fst l) of
        None \<Rightarrow> r
      | Some hRes \<Rightarrow>
          r\<lparr>stdout := stdout r @ [encode_Result (final_Result (useFingerprint c) (snd l) hRes)],
            spawned := spawned r
              @ (if fingerprinted (useFingerprint c) hRes then [whatweb_argv hRes] else [])\<rparr>)"

fun httpx_loop :: "config \<Rightarrow> (bytes \<times> line_env) list \<Rightarrow> run \<Rightarrow> run" where
  "httpx_loop c [] r = r"
| "httpx_loop c (l # ls) r = httpx_loop c ls (process_line c l r)"

text \<open>
  What one line of httpx output adds to standard output and to the commands run, read off
  \<open>process_line\<close>; the lemmas \<open>process_line_adds\<close> and \<open>httpx_loop_adds\<close> below relate
  them to the loop.
\<close>

definition line_records :: "config \<Rightarrow> bytes \<times> line_env \<Rightarrow> json list" where
  "line_records c l =
     (case Unmarshal_HttpxResult (fst l) of
        None \<Rightarrow> []
      | Some hRes \<Rightarrow> [encode_Result (final_Result (useFingerprint c) (snd l) hRes)])"

definition line_spawns :: "config \<Rightarrow> bytes \<times> line_env \<Rightarrow> string list list" where
  "line_spawns c l =
     (case Unmarshal_HttpxResult (fst l) of
        None \<Rightarrow> []
      | Some hRes \<Rightarrow> if fingerprinted (useFingerprint c) hRes then [whatweb_argv hRes] else [])"

text \<open>
  \<open>main\<close>. Every \<open>os.Exit\<close> ends the run where it stands; falling off the end of \<open>main\<close> is
  exit status 0.
\<close>

definition main_go :: "config \<Rightarrow> env \<Rightarrow> run" where
  "main_go c e =
     (case args c of
        [] \<Rightarrow>
          \<lparr>stdout = [],
           stderr = [''Usage: '' @ prog c @ '' [-deep] [-fingerprint] <target-domain>''],
           spawned = [], goroutines = [], exit_status = 1\<rparr>
      | target # _ \<Rightarrow>
          (case checkBinaries c e of
             Some obj \<Rightarrow>
               \<lparr>stdout = [obj], stderr = [], spawned = [], goroutines = [], exit_status = 1\<rparr>
           | None \<Rightarrow>
               (let r0 = \<lparr>stdout = [], stderr = [], spawned = [],
                          goroutines = Subfinder_task # (if useDeep c then [Amass_task] else []),
                          exit_status = 0\<rparr>
                in case stdin_pipe_err e of
                     Some err \<Rightarrow> fatalError ''Failed to create httpx stdin pipe'' err r0
                   | None \<Rightarrow>
                      (case stdout_pipe_err e of
                         Some err \<Rightarrow> fatalError ''Failed to create httpx stdout pipe'' err r0
                       | None \<Rightarrow>
                          (let r1 = r0\<lparr>spawned := [httpx_argv]\<rparr>
                           in case httpx_start_err e of
                                Some err \<Rightarrow> fatalError ''Failed to start httpx'' err r1
                              | None \<Rightarrow>
                                  httpx_loop c (httpx_lines e)
                                    (r1\<lparr>spawned := spawned r1 @ [nmap_argv target],
                                        goroutines := goroutines r1
                                          @ (if nmap_start_err e = None then [Nmap_wait] else [])
                                          @ [Coordinator_task, Feeder_task]\<rparr>))))))"

subsection \<open>The discovery goroutines (lines 97-157)\<close>

text \<open>
  What a discovery goroutine does to the state it shares with the others, in program
  order: a send on the channel \<open>subdomains\<close>, a store into \<open>infraMap\<close> under the mutex, a
  line on standard error. Its external process either fails at \<open>StdoutPipe\<close> or at
  \<open>Start\<close>, or hands the scanner a list of lines.
\<close>

datatype action = Send string | Put string Infrastructure | Log string

datatype 'a process = PipeError string | StartError string | Lines "'a list"

text \<open>The subfinder goroutine, lines 99-116: every line is sent as it is.\<close>

definition subfinder_task :: "string process \<Rightarrow> action list" where
  "subfinder_task p =
     (case p of
        PipeError err \<Rightarrow> [Log (''Subfinder pipe error: '' @ err)]
      | StartError err \<Rightarrow> [Log (''Subfinder start error: '' @ err)]
      | Lines ls \<Rightarrow> map Send ls)"

text \<open>
  The body of the amass loop, lines 140-153: a line that does not decode, or decodes to an
  empty name, does nothing; otherwise the name is sent and, when there is an address, the
  first one is stored.
\<close>

definition amass_line :: "bytes \<Rightarrow> action list" where
  "amass_line line =
     (case Unmarshal_AmassResult line of
        None \<Rightarrow> []
      | Some ar \<Rightarrow>
          if Name ar = [] then []
          else Send (Name ar)
               # (case Addresses ar of
                    [] \<Rightarrow> []
                  | a # _ \<Rightarrow> [Put (Name ar) \<lparr>inf_Asn = addr_Asn a, inf_Org = Desc a\<rparr>]))"

definition amass_task :: "bytes process \<Rightarrow> action list" where
  "amass_task p =
     (case p of
        PipeError err \<Rightarrow> [Log (''Amass pipe error: '' @ err)]
      | StartError err \<Rightarrow> [Log (''Amass start error: '' @ err)]
      | Lines ls \<Rightarrow> concat (map amass_line ls))"

text \<open>The goroutines \<open>main\<close> launches before it sets up httpx: amass only with \<open>-deep\<close>.\<close>

definition discovery_tasks :: "bool \<Rightarrow> string process \<Rightarrow> bytes process \<Rightarrow> action list list" where
  "discovery_tasks deep subfinder amass =
     subfinder_task subfinder # (if deep then [amass_task amass] else [])"

subsection \<open>Fan-in, deduplication and the hand-over to httpx (lines 94-95, 183-199)\<close>

text \<open>
  The goroutines run concurrently; a run is an interleaving of their steps, from the
  launch of the coordinator and the feeder until the feeder returns (the main goroutine
  meanwhile reads what httpx prints; its exit is not part of this picture). The shared
  state:
  \<^item> \<open>tasks\<close>: for every discovery goroutine the actions it has still to do, or \<open>None\<close> once
    it has returned and its deferred \<open>wgDiscovery.Done()\<close> has run;
  \<^item> \<open>wg\<close>: the counter of \<open>wgDiscovery\<close>;
  \<^item> \<open>chan\<close>: the values buffered in \<open>subdomains\<close>, oldest first, and \<open>closed\<close>: whether
    \<open>close(subdomains)\<close> has run;
  \<^item> \<open>infraMap\<close> and \<open>seen\<close>: the two maps (a missing key of \<open>seen\<close> reads as \<open>false\<close>);
  \<^item> \<open>httpxIn\<close>: the lines written to the standard input of httpx, and \<open>httpxIn_closed\<close>:
    whether \<open>httpxIn.Close()\<close> has run;
  \<^item> \<open>errlog\<close>: the lines the discovery goroutines wrote to standard error;
  \<^item> \<open>panicked\<close>: whether the runtime has panicked (a send on a closed channel, a negative
    WaitGroup counter).
\<close>

record fanin =
  tasks :: "action list option list"
  wg :: int
  chan :: "string list"
  closed :: bool
  infraMap :: "(string \<times> Infrastructure) list"
  seen :: "(string \<times> bool) list"
  httpxIn :: "string list"
  httpxIn_closed :: bool
  errlog :: "string list"
  panicked :: bool

text \<open>\<open>make(chan string, 1000)\<close>, line 94.\<close>

definition capacity :: nat where
  "capacity = 1000"

text \<open>
  The state when the coordinator and the feeder are launched: every \<open>wgDiscovery.Add(1)\<close>
  (lines 98 and 120) has run, since \<open>main\<close> calls them before the \<open>go\<close> statements of
  lines 184 and 190.
\<close>

definition init :: "action list list \<Rightarrow> fanin" where
  "init ts =
     \<lparr>tasks = map Some ts, wg = int (length ts), chan = [], closed = False, infraMap = [],
      seen = [], httpxIn = [], httpxIn_closed = False, errlog = [], panicked = False\<rparr>"

text \<open>
  The scheduler picks a goroutine; \<open>None\<close> means the goroutine cannot move (it is blocked or
  has returned, or the program has crashed).
\<close>

datatype event = Discovery nat | Coordinator | Feeder

text \<open>
  A discovery goroutine does its next action, or returns when none is left. A send blocks
  while the buffer is full and panics on a closed channel.
\<close>

definition discovery_step :: "nat \<Rightarrow> fanin \<Rightarrow> fanin option" where
  "discovery_step i s =
     (if i \<ge> length (tasks s) then None
      else case tasks s ! i of
        None \<Rightarrow> None
      | Some [] \<Rightarrow>
          Some (s\<lparr>tasks := (tasks s)[i := None], wg := wg s - 1,
                  panicked := (wg s - 1 < 0)\<rparr>)
      | Some (Send sub # rest) \<Rightarrow>
          if closed s then Some (s\<lparr>panicked := True\<rparr>)
          else if length (chan s) \<ge> capacity then None
          else Some (s\<lparr>tasks := (tasks s)[i := Some rest], chan := chan s @ [sub]\<rparr>)
      | Some (Put name info # rest) \<Rightarrow>
          Some (s\<lparr>tasks := (tasks s)[i := Some rest],
                  infraMap := AList.update name info (infraMap s)\<rparr>)
      | Some (Log msg # rest) \<Rightarrow>
          Some (s\<lparr>tasks := (tasks s)[i := Some rest], errlog := errlog s @ [msg]\<rparr>))"

text \<open>
  Lines 184-187: \<open>wgDiscovery.Wait()\<close> returns once the counter is zero, then the channel
  is closed and the goroutine returns.
\<close>

definition coordinator_step :: "fanin \<Rightarrow> fanin option" where
  "coordinator_step s = (if wg s = 0 \<and> \<not> closed s then Some (s\<lparr>closed := True\<rparr>) else None)"

text \<open>
  Lines 190-199: the \<open>range\<close> over the channel receives the oldest buffered value, blocks on
  an empty open channel and ends on an empty closed one; then the input of httpx is closed
  and the goroutine returns.
\<close>

definition feeder_step :: "fanin \<Rightarrow> fanin option" where
  "feeder_step s =
     (if httpxIn_closed s then None
      else case chan s of
        sub # rest \<Rightarrow>
          if \<not> (case map_of (seen s) sub of None \<Rightarrow> False | Some b \<Rightarrow> b)
          then Some (s\<lparr>chan := rest, seen := AList.update sub True (seen s),
                       httpxIn := httpxIn s @ [sub]\<rparr>)
          else Some (s\<lparr>chan := rest\<rparr>)
      | [] \<Rightarrow> if closed s then Some (s\<lparr>httpxIn_closed := True\<rparr>) else None)"

definition step :: "event \<Rightarrow> fanin \<Rightarrow> fanin option" where
  "step ev s =
     (if panicked s then None
      else case ev of
        Discovery i \<Rightarrow> discovery_step i s
      | Coordinator \<Rightarrow> coordinator_step s
      | Feeder \<Rightarrow> feeder_step s)"

text \<open>A schedule, run from a state; \<open>None\<close> when it asks a goroutine to move that cannot.\<close>

fun exec :: "event list \<Rightarrow> fanin \<Rightarrow> fanin option" where
  "exec [] s = Some s"
| "exec (ev # evs) s = (case step ev s of None \<Rightarrow> None | Some s' \<Rightarrow> exec evs s')"

text \<open>The identifiers a goroutine has still to send, and the ones all of them emit.\<close>

fun sends :: "action list \<Rightarrow> string list" where
  "sends [] = []"
| "sends (Send sub # rest) = sub # sends rest"
| "sends (Put name info # rest) = sends rest"
| "sends (Log msg # rest) = sends rest"

definition unsent :: "action list option \<Rightarrow> string list" where
  "unsent t = (case t of None \<Rightarrow> [] | Some as \<Rightarrow> sends as)"

definition pending :: "action list option list \<Rightarrow> string list" where
  "pending ts = concat (map unsent ts)"

definition emitted :: "action list list \<Rightarrow> string list" where
  "emitted ts = concat (map sends ts)"

text \<open>
  The number of discovery goroutines that have not returned, the steps they have still to
  take, and the invariant of the shared state with respect to the identifiers \<open>E\<close> the
  goroutines emit in all.
\<close>

definition running :: "action list option list \<Rightarrow> nat" where
  "running ts = length (filter (\<lambda>t. t \<noteq> None) ts)"

definition work :: "action list option list \<Rightarrow> nat" where
  "work ts = sum_list (map (\<lambda>t. case t of None \<Rightarrow> 0 | Some as \<Rightarrow> Suc (length as)) ts)"

definition fanin_inv :: "string list \<Rightarrow> fanin \<Rightarrow> bool" where
  "fanin_inv E s \<longleftrightarrow>
     \<not> panicked s
     \<and> wg s = int (running (tasks s))
     \<and> (closed s \<longrightarrow> (\<forall>t \<in> set (tasks s). t = None))
     \<and> (httpxIn_closed s \<longrightarrow> closed s \<and> chan s = [])
     \<and> length (chan s) \<le> capacity
     \<and> distinct (httpxIn s)
     \<and> (\<forall>x. (case map_of (seen s) x of None \<Rightarrow> False | Some b \<Rightarrow> b) \<longleftrightarrow> x \<in> set (httpxIn s))
     \<and> set (httpxIn s) \<union> set (chan s) \<union> set (pending (tasks s)) = set E"

section \<open>Properties\<close>

subsection \<open>The technology-list merge\<close>

lemma found_iff: "found p ts \<longleftrightarrow> p \<in> set ts"
  by (induction ts) auto

lemma merge_plugins_set: "set (merge_plugins ts ps) = set ts \<union> set ps"
  by (induction ps arbitrary: ts) (auto simp: found_iff)

lemma merge_plugins_absorb: "set ps \<subseteq> set ts \<Longrightarrow> merge_plugins ts ps = ts"
  by (induction ps arbitrary: ts) (auto simp: found_iff)

lemma merge_plugins_count:
  "count_list (merge_plugins ts ps) x =
     (if x \<in> set ts then count_list ts x else if x \<in> set ps then 1 else 0)"
proof (induction ps arbitrary: ts)
  case Nil
  then show ?case by (simp add: count_list_0_iff)
next
  case (Cons p ps)
  show ?case
  proof (cases "p \<in> set ts")
    case True
    then show ?thesis using Cons.IH [of ts] by (auto simp: found_iff)
  next
    case False
    then have "count_list ts p = 0" by (simp add: count_list_0_iff)
    then show ?thesis
      using False Cons.IH [of "ts @ [p]"] by (auto simp: found_iff count_list_0_iff)
  qed
qed

lemma merge_plugins_distinct: "distinct ts \<Longrightarrow> distinct (merge_plugins ts ps)"
  by (induction ps arbitrary: ts) (auto simp: found_iff)

text \<open>
  C7. Merging plugin names into a technology list is an idempotent union by value. Merging
  the same names a second time, in whatever order the second range statement visits them,
  changes nothing; the merged list holds exactly the old entries and the names; every old
  entry keeps its number of occurrences and every new name occurs once, so no duplicate is
  introduced, and a duplicate-free list stays duplicate-free.
\<close>

theorem merge_plugins_idempotent_union:
  "(set ps' = set ps \<longrightarrow> merge_plugins (merge_plugins ts ps) ps' = merge_plugins ts ps)
   \<and> set (merge_plugins ts ps) = set ts \<union> set ps
   \<and> (\<forall>x. count_list (merge_plugins ts ps) x =
          (if x \<in> set ts then count_list ts x else if x \<in> set ps then 1 else 0))
   \<and> (distinct ts \<longrightarrow> distinct (merge_plugins ts ps))"
proof (intro conjI impI allI)
  assume "set ps' = set ps"
  then have "set ps' \<subseteq> set (merge_plugins ts ps)"
    by (simp add: merge_plugins_set)
  then show "merge_plugins (merge_plugins ts ps) ps' = merge_plugins ts ps"
    by (rule merge_plugins_absorb)
next
  show "set (merge_plugins ts ps) = set ts \<union> set ps"
    by (rule merge_plugins_set)
next
  fix x
  show "count_list (merge_plugins ts ps) x =
          (if x \<in> set ts then count_list ts x else if x \<in> set ps then 1 else 0)"
    by (rule merge_plugins_count)
next
  assume "distinct ts"
  then show "distinct (merge_plugins ts ps)"
    by (rule merge_plugins_distinct)
qed

theorem merge_plugins_idempotent_union_witness:
  "set [''PHP'', ''nginx''] = set [''nginx'', ''PHP'']
   \<and> distinct [''nginx'', ''jQuery'']
   \<and> merge_plugins (merge_plugins [''nginx'', ''jQuery''] [''nginx'', ''PHP'']) [''PHP'', ''nginx'']
       = merge_plugins [''nginx'', ''jQuery''] [''nginx'', ''PHP'']
   \<and> merge_plugins [''nginx'', ''jQuery''] [''nginx'', ''PHP''] = [''nginx'', ''jQuery'', ''PHP'']
   \<and> distinct (merge_plugins [''nginx'', ''jQuery''] [''nginx'', ''PHP''])"
proof -
  have s: "set [''PHP'', ''nginx''] = set [''nginx'', ''PHP'']"
    by auto
  have d: "distinct [''nginx'', ''jQuery'']"
    by simp
  have m: "merge_plugins [''nginx'', ''jQuery''] [''nginx'', ''PHP''] = [''nginx'', ''jQuery'', ''PHP'']"
    by simp
  from merge_plugins_idempotent_union
    [of "[''PHP'', ''nginx'']" "[''nginx'', ''PHP'']" "[''nginx'', ''jQuery'']"] s d
  have "merge_plugins (merge_plugins [''nginx'', ''jQuery''] [''nginx'', ''PHP'']) [''PHP'', ''nginx'']
          = merge_plugins [''nginx'', ''jQuery''] [''nginx'', ''PHP'']"
    and "distinct (merge_plugins [''nginx'', ''jQuery''] [''nginx'', ''PHP''])"
    by blast+
  with s d m show ?thesis
    by blast
qed

subsection \<open>Fan-in: the invariant and the completion of every run\<close>

lemma pending_split:
  assumes "i < length ts"
  shows "pending ts = pending (take i ts) @ unsent (ts ! i) @ pending (drop (Suc i) ts)"
proof -
  have "ts = take i ts @ ts ! i # drop (Suc i) ts"
    using assms by (rule id_take_nth_drop)
  then have "pending ts = pending (take i ts @ ts ! i # drop (Suc i) ts)"
    by simp
  then show ?thesis
    by (simp add: pending_def unsent_def)
qed

lemma pending_update:
  assumes "i < length ts"
  shows "pending (ts[i := t]) = pending (take i ts) @ unsent t @ pending (drop (Suc i) ts)"
proof -
  have "ts[i := t] = take i ts @ t # drop (Suc i) ts"
    using assms by (rule upd_conv_take_nth_drop)
  then show ?thesis
    by (simp add: pending_def unsent_def)
qed

lemma running_split:
  assumes "i < length ts"
  shows "running ts =
         running (take i ts) + (if ts ! i = None then 0 else 1) + running (drop (Suc i) ts)"
proof -
  have "ts = take i ts @ ts ! i # drop (Suc i) ts"
    using assms by (rule id_take_nth_drop)
  then have "running ts = running (take i ts @ ts ! i # drop (Suc i) ts)"
    by simp
  then show ?thesis by (simp add: running_def)
qed

lemma running_update:
  assumes "i < length ts"
  shows "running (ts[i := u]) =
         running (take i ts) + (if u = None then 0 else 1) + running (drop (Suc i) ts)"
proof -
  have "ts[i := u] = take i ts @ u # drop (Suc i) ts"
    using assms by (rule upd_conv_take_nth_drop)
  then show ?thesis by (simp add: running_def)
qed

lemma init_inv: "fanin_inv (emitted ts) (init ts)"
  by (simp add: fanin_inv_def init_def emitted_def pending_def unsent_def comp_def capacity_def
      running_def)

lemma discovery_step_inv:
  assumes inv: "fanin_inv E s" and st: "discovery_step i s = Some s'"
  shows "fanin_inv E s'"
proof -
  from st have i: "i < length (tasks s)"
    by (auto simp: discovery_step_def split: if_splits)
  note sp = pending_split [OF i] running_split [OF i]
  note up = pending_update [OF i] running_update [OF i]
  from st i obtain as where as: "tasks s ! i = Some as"
    by (auto simp: discovery_step_def split: option.splits)
  then have open_chan: "\<not> closed s"
    using inv i unfolding fanin_inv_def by (metis nth_mem option.distinct(1))
  show ?thesis
  proof (cases as)
    case Nil
    with st i as have s': "s' = s\<lparr>tasks := (tasks s)[i := None], wg := wg s - 1, panicked := (wg s - 1 < 0)\<rparr>"
      by (simp add: discovery_step_def)
    show ?thesis
      using inv open_chan as Nil unfolding fanin_inv_def s'
      by (auto simp: sp up unsent_def)
  next
    case (Cons a rest)
    show ?thesis
    proof (cases a)
      case (Send sub)
      with st i as Cons open_chan have s': "s' = s\<lparr>tasks := (tasks s)[i := Some rest], chan := chan s @ [sub]\<rparr>"
        and room: "length (chan s) < capacity"
        by (auto simp: discovery_step_def split: if_splits)
      show ?thesis
        using inv open_chan as Cons Send room unfolding fanin_inv_def s'
        by (auto simp: sp up unsent_def)
    next
      case (Put name info)
      with st i as Cons have s': "s' = s\<lparr>tasks := (tasks s)[i := Some rest], infraMap := AList.update name info (infraMap s)\<rparr>"
        by (auto simp: discovery_step_def)
      show ?thesis
        using inv open_chan as Cons Put unfolding fanin_inv_def s'
        by (auto simp: sp up unsent_def)
    next
      case (Log msg)
      with st i as Cons have s': "s' = s\<lparr>tasks := (tasks s)[i := Some rest], errlog := errlog s @ [msg]\<rparr>"
        by (auto simp: discovery_step_def)
      show ?thesis
        using inv open_chan as Cons Log unfolding fanin_inv_def s'
        by (auto simp: sp up unsent_def)
    qed
  qed
qed


lemma running_0_iff: "running ts = 0 \<longleftrightarrow> (\<forall>t \<in> set ts. t = None)"
  by (auto simp: running_def filter_empty_conv)

lemma pending_all_returned: "\<forall>t \<in> set ts. t = None \<Longrightarrow> pending ts = []"
  by (induction ts) (auto simp: pending_def unsent_def)

lemma coordinator_step_inv:
  assumes inv: "fanin_inv E s" and st: "coordinator_step s = Some s'"
  shows "fanin_inv E s'"
proof -
  from st have wg0: "wg s = 0" and s': "s' = s\<lparr>closed := True\<rparr>"
    by (auto simp: coordinator_step_def split: if_splits)
  from inv wg0 have "running (tasks s) = 0"
    by (simp add: fanin_inv_def)
  then have "\<forall>t \<in> set (tasks s). t = None"
    by (simp only: running_0_iff)
  with inv show ?thesis
    unfolding fanin_inv_def s' by simp
qed

lemma feeder_step_inv:
  assumes inv: "fanin_inv E s" and st: "feeder_step s = Some s'"
  shows "fanin_inv E s'"
proof (cases "chan s")
  case Nil
  with st have "closed s" and s': "s' = s\<lparr>httpxIn_closed := True\<rparr>"
    by (auto simp: feeder_step_def split: if_splits)
  with inv Nil show ?thesis
    unfolding fanin_inv_def by simp
next
  case (Cons sub rest)
  from st have running: "\<not> httpxIn_closed s"
    by (auto simp: feeder_step_def split: if_splits)
  from inv have seen_iff:
    "(case map_of (seen s) sub of None \<Rightarrow> False | Some b \<Rightarrow> b) \<longleftrightarrow> sub \<in> set (httpxIn s)"
    by (simp add: fanin_inv_def)
  show ?thesis
  proof (cases "sub \<in> set (httpxIn s)")
    case True
    with st Cons running seen_iff have s': "s' = s\<lparr>chan := rest\<rparr>"
      by (simp add: feeder_step_def)
    from inv Cons True show ?thesis
      unfolding fanin_inv_def s' by auto
  next
    case False
    with st Cons running seen_iff
    have s': "s' = s\<lparr>chan := rest, seen := AList.update sub True (seen s),
                      httpxIn := httpxIn s @ [sub]\<rparr>"
      by (simp add: feeder_step_def)
    from inv Cons False show ?thesis
      unfolding fanin_inv_def s' by (auto simp: update_conv')
  qed
qed

lemma step_inv: "fanin_inv E s \<Longrightarrow> step ev s = Some s' \<Longrightarrow> fanin_inv E s'"
  by (cases ev)
    (auto simp: step_def split: if_splits
      intro: discovery_step_inv coordinator_step_inv feeder_step_inv)

lemma exec_inv: "fanin_inv E s \<Longrightarrow> exec evs s = Some s' \<Longrightarrow> fanin_inv E s'"
proof (induction evs arbitrary: s)
  case Nil
  then show ?case by simp
next
  case (Cons ev evs)
  from Cons.prems(2) obtain s1 where "step ev s = Some s1" and "exec evs s1 = Some s'"
    by (auto split: option.splits)
  with Cons.IH Cons.prems(1) show ?case
    by (blast intro: step_inv)
qed

lemma reachable_inv: "exec evs (init ts) = Some s \<Longrightarrow> fanin_inv (emitted ts) s"
  using init_inv by (rule exec_inv)

lemma work_split:
  assumes "i < length ts"
  shows "work ts = work (take i ts) + work [ts ! i] + work (drop (Suc i) ts)"
proof -
  have "ts = take i ts @ ts ! i # drop (Suc i) ts"
    using assms by (rule id_take_nth_drop)
  then have "work ts = work (take i ts @ ts ! i # drop (Suc i) ts)"
    by simp
  then show ?thesis by (simp add: work_def)
qed

lemma work_update:
  assumes "i < length ts"
  shows "work (ts[i := u]) = work (take i ts) + work [u] + work (drop (Suc i) ts)"
proof -
  have "ts[i := u] = take i ts @ u # drop (Suc i) ts"
    using assms by (rule upd_conv_take_nth_drop)
  then show ?thesis by (simp add: work_def)
qed

lemma work_step:
  assumes "i < length ts" and "ts ! i = Some as"
  shows "work (ts[i := u]) + work [Some as] = work ts + work [u]"
  using work_split [OF assms(1)] work_update [OF assms(1), of u] assms(2) by simp

lemma work_0: "work ts = 0 \<Longrightarrow> \<forall>t \<in> set ts. t = None"
  by (induction ts) (auto simp: work_def split: option.splits)

lemma work_Suc: "work ts = Suc n \<Longrightarrow> \<exists>i as. i < length ts \<and> ts ! i = Some as"
proof (induction ts)
  case Nil
  then show ?case by (simp add: work_def)
next
  case (Cons t ts)
  show ?case
  proof (cases t)
    case None
    with Cons.prems have "work ts = Suc n" by (simp add: work_def)
    then obtain i as where "i < length ts" "ts ! i = Some as"
      using Cons.IH by blast
    then have "Suc i < length (t # ts)" "(t # ts) ! Suc i = Some as" by simp_all
    then show ?thesis by blast
  next
    case (Some as)
    then have "0 < length (t # ts)" "(t # ts) ! 0 = Some as" by simp_all
    then show ?thesis by blast
  qed
qed

lemma exec_append:
  "exec (evs @ evs') s = (case exec evs s of None \<Rightarrow> None | Some s' \<Rightarrow> exec evs' s')"
  by (induction evs arbitrary: s) (auto split: option.splits)

lemma drain:
  assumes "fanin_inv E s" and "\<not> httpxIn_closed s"
  shows "\<exists>s'. exec (replicate (length (chan s)) Feeder) s = Some s' \<and> fanin_inv E s'
           \<and> chan s' = [] \<and> tasks s' = tasks s \<and> closed s' = closed s \<and> \<not> httpxIn_closed s'"
  using assms
proof (induction "length (chan s)" arbitrary: s)
  case 0
  then show ?case by simp
next
  case (Suc n)
  then obtain sub rest where ch: "chan s = sub # rest"
    by (cases "chan s") auto
  from Suc.prems have np: "\<not> panicked s"
    by (simp add: fanin_inv_def)
  from ch Suc.prems(2)
  have "\<exists>s1. feeder_step s = Some s1 \<and> chan s1 = rest \<and> tasks s1 = tasks s
          \<and> closed s1 = closed s \<and> \<not> httpxIn_closed s1"
    by (simp add: feeder_step_def)
  then obtain s1 where f: "feeder_step s = Some s1" and
    s1: "chan s1 = rest" "tasks s1 = tasks s" "closed s1 = closed s" "\<not> httpxIn_closed s1"
    by blast
  from f np have st: "step Feeder s = Some s1"
    by (simp add: step_def)
  with Suc.prems(1) have inv1: "fanin_inv E s1"
    by (rule step_inv)
  from Suc.hyps(2) ch s1 have "n = length (chan s1)"
    by simp
  from Suc.hyps(1) [OF this inv1 s1(4)] obtain s' where
    "exec (replicate (length (chan s1)) Feeder) s1 = Some s'" "fanin_inv E s'"
    "chan s' = []" "tasks s' = tasks s1" "closed s' = closed s1" "\<not> httpxIn_closed s'"
    by blast
  with st ch s1 show ?case
    by simp
qed

lemma finish:
  assumes "fanin_inv E s" and "\<not> httpxIn_closed s" and "work (tasks s) = n"
  shows "\<exists>evs s'. exec evs s = Some s' \<and> httpxIn_closed s'"
  using assms
proof (induction n arbitrary: s)
  case 0
  from drain [OF 0(1,2)] obtain s1 where
    d: "exec (replicate (length (chan s)) Feeder) s = Some s1" and inv1: "fanin_inv E s1"
    and s1: "chan s1 = []" "tasks s1 = tasks s" "closed s1 = closed s" "\<not> httpxIn_closed s1"
    by blast
  from inv1 have np: "\<not> panicked s1"
    by (simp add: fanin_inv_def)
  from 0(3) s1 have "\<forall>t \<in> set (tasks s1). t = None"
    by (simp add: work_0)
  then have "running (tasks s1) = 0"
    by (simp only: running_0_iff)
  with inv1 have wg0: "wg s1 = 0"
    by (simp add: fanin_inv_def)
  show ?case
  proof (cases "closed s1")
    case True
    with s1 np have "exec [Feeder] s1 = Some (s1\<lparr>httpxIn_closed := True\<rparr>)"
      by (simp add: step_def feeder_step_def)
    with d have "exec (replicate (length (chan s)) Feeder @ [Feeder]) s
                   = Some (s1\<lparr>httpxIn_closed := True\<rparr>)"
      by (simp add: exec_append)
    then show ?thesis
      by (metis fanin.select_convs(8) fanin.surjective fanin.update_convs(8))
  next
    case False
    with s1 np wg0
    have "exec [Coordinator, Feeder] s1 = Some (s1\<lparr>closed := True, httpxIn_closed := True\<rparr>)"
      by (simp add: step_def feeder_step_def coordinator_step_def)
    with d have "exec (replicate (length (chan s)) Feeder @ [Coordinator, Feeder]) s
                   = Some (s1\<lparr>closed := True, httpxIn_closed := True\<rparr>)"
      by (simp add: exec_append)
    moreover have "httpxIn_closed (s1\<lparr>closed := True, httpxIn_closed := True\<rparr>)"
      by simp
    ultimately show ?thesis
      by blast
  qed
next
  case (Suc n)
  from drain [OF Suc.prems(1,2)] obtain s1 where
    d: "exec (replicate (length (chan s)) Feeder) s = Some s1" and inv1: "fanin_inv E s1"
    and s1: "chan s1 = []" "tasks s1 = tasks s" "closed s1 = closed s" "\<not> httpxIn_closed s1"
    by blast
  from inv1 have np: "\<not> panicked s1"
    by (simp add: fanin_inv_def)
  from Suc.prems(3) s1 obtain i as where i: "i < length (tasks s1)" and as: "tasks s1 ! i = Some as"
    using work_Suc by metis
  from i have "tasks s1 ! i \<in> set (tasks s1)"
    by (rule nth_mem)
  with as inv1 have op: "\<not> closed s1"
    unfolding fanin_inv_def by (metis option.distinct(1))
  from Suc.prems(3) s1 have w: "work (tasks s1) = Suc n"
    by simp
  have "\<exists>s2. discovery_step i s1 = Some s2 \<and> \<not> httpxIn_closed s2 \<and> work (tasks s2) = n"
  proof (cases as)
    case Nil
    from work_step [OF i, of "[]" None] as Nil w have "work ((tasks s1)[i := None]) = n"
      by (simp add: work_def)
    with i as Nil s1(4) show ?thesis
      by (simp add: discovery_step_def)
  next
    case (Cons a rest)
    from work_step [OF i, of as "Some rest"] as Cons w
    have "work ((tasks s1)[i := Some rest]) = n"
      by (simp add: work_def)
    with i as Cons s1 op show ?thesis
      by (cases a) (simp_all add: discovery_step_def capacity_def)
  qed
  then obtain s2 where ds: "discovery_step i s1 = Some s2" and s2: "\<not> httpxIn_closed s2"
    "work (tasks s2) = n"
    by blast
  from ds np have st: "step (Discovery i) s1 = Some s2"
    by (simp add: step_def)
  with inv1 have "fanin_inv E s2"
    by (rule step_inv)
  from Suc.IH [OF this s2] obtain evs s' where "exec evs s2 = Some s'" "httpxIn_closed s'"
    by blast
  with d st have "exec (replicate (length (chan s)) Feeder @ Discovery i # evs) s = Some s'"
    by (simp add: exec_append)
  with \<open>httpxIn_closed s'\<close> show ?case
    by blast
qed

lemma run_can_complete:
  assumes "exec evs (init ts) = Some s"
  shows "\<exists>evs' s'. exec (evs @ evs') (init ts) = Some s' \<and> httpxIn_closed s'"
proof (cases "httpxIn_closed s")
  case True
  with assms have "exec (evs @ []) (init ts) = Some s \<and> httpxIn_closed s"
    by simp
  then show ?thesis by blast
next
  case False
  from assms have "fanin_inv (emitted ts) s"
    by (rule reachable_inv)
  from finish [OF this False refl] obtain evs' s' where "exec evs' s = Some s'" "httpxIn_closed s'"
    by blast
  with assms have "exec (evs @ evs') (init ts) = Some s' \<and> httpxIn_closed s'"
    by (simp add: exec_append)
  then show ?thesis by blast
qed

lemma distinct_count_list:
  "distinct xs \<Longrightarrow> count_list xs x = (if x \<in> set xs then 1 else 0)"
  by (induction xs) auto

lemmas fanin_eval =
  init_def step_def discovery_step_def coordinator_step_def feeder_step_def capacity_def

text \<open>
  C1. Whatever the discovery goroutines emit and however the scheduler interleaves them
  with the coordinator and the feeder: the lines written to the standard input of httpx
  never repeat an identifier and are all identifiers some goroutine emitted; the run can
  always be continued until the feeder has closed that input; and once it has, every
  identifier emitted by any goroutine has been written exactly once, and nothing else.
\<close>

theorem feeder_writes_each_identifier_once:
  assumes "exec evs (init ts) = Some s"
  shows "distinct (httpxIn s)
         \<and> set (httpxIn s) \<subseteq> set (emitted ts)
         \<and> (httpxIn_closed s \<longrightarrow>
              (\<forall>x. count_list (httpxIn s) x = (if x \<in> set (emitted ts) then 1 else 0)))
         \<and> (\<exists>evs' s'. exec (evs @ evs') (init ts) = Some s' \<and> httpxIn_closed s')"
proof -
  from assms have inv: "fanin_inv (emitted ts) s"
    by (rule reachable_inv)
  then have d: "distinct (httpxIn s)"
    by (simp add: fanin_inv_def)
  have "count_list (httpxIn s) x = (if x \<in> set (emitted ts) then 1 else 0)"
    if "httpxIn_closed s" for x
  proof -
    from inv that have "chan s = []" and "\<forall>t \<in> set (tasks s). t = None"
      by (simp_all add: fanin_inv_def)
    with inv have "set (httpxIn s) = set (emitted ts)"
      by (simp add: fanin_inv_def pending_all_returned)
    with d show ?thesis
      by (simp add: distinct_count_list)
  qed
  moreover from inv have "set (httpxIn s) \<subseteq> set (emitted ts)"
    by (auto simp: fanin_inv_def)
  moreover note d run_can_complete [OF assms]
  ultimately show ?thesis
    by blast
qed

theorem feeder_writes_each_identifier_once_witness:
  "\<exists>s. exec [Discovery 0, Discovery 1, Feeder, Discovery 0, Discovery 1, Feeder, Discovery 0,
            Discovery 1, Discovery 1, Feeder, Feeder, Coordinator, Feeder]
          (init [[Send ''a.example.com'', Send ''b.example.com''],
                 [Send ''a.example.com'',
                  Put ''a.example.com'' \<lparr>inf_Asn = 64500, inf_Org = ''Example Net''\<rparr>,
                  Send ''c.example.com'']]) = Some s
       \<and> httpxIn_closed s
       \<and> httpxIn s = [''a.example.com'', ''b.example.com'', ''c.example.com'']
       \<and> distinct (httpxIn s)
       \<and> count_list (httpxIn s) ''a.example.com'' = 1"
proof -
  let ?ts = "[[Send ''a.example.com'', Send ''b.example.com''],
              [Send ''a.example.com'',
               Put ''a.example.com'' \<lparr>inf_Asn = 64500, inf_Org = ''Example Net''\<rparr>,
               Send ''c.example.com'']]"
  let ?evs = "[Discovery 0, Discovery 1, Feeder, Discovery 0, Discovery 1, Feeder, Discovery 0,
               Discovery 1, Discovery 1, Feeder, Feeder, Coordinator, Feeder]"
  have "\<exists>s. exec ?evs (init ?ts) = Some s \<and> httpxIn_closed s
          \<and> httpxIn s = [''a.example.com'', ''b.example.com'', ''c.example.com'']"
    by (simp add: fanin_eval)
  then obtain s where e: "exec ?evs (init ?ts) = Some s" and c: "httpxIn_closed s"
    and h: "httpxIn s = [''a.example.com'', ''b.example.com'', ''c.example.com'']"
    by blast
  have "''a.example.com'' \<in> set (emitted ?ts)"
    by (simp add: emitted_def)
  with feeder_writes_each_identifier_once [OF e] c
  have "distinct (httpxIn s)" and "count_list (httpxIn s) ''a.example.com'' = 1"
    by simp_all
  with e c h show ?thesis
    by blast
qed

text \<open>
  C2. In every state a run can reach: the runtime has not panicked; if \<open>subdomains\<close> has
  been closed then every discovery goroutine has returned and none can take another step;
  and if the input of httpx has been closed then \<open>subdomains\<close> is closed and empty and no
  goroutine has an identifier left to send.
\<close>

theorem close_only_after_discovery:
  assumes "exec evs (init ts) = Some s"
  shows "\<not> panicked s
         \<and> (closed s \<longrightarrow> (\<forall>t \<in> set (tasks s). t = None) \<and> (\<forall>i. step (Discovery i) s = None))
         \<and> (httpxIn_closed s \<longrightarrow> closed s \<and> chan s = [] \<and> pending (tasks s) = [])"
proof -
  from assms have inv: "fanin_inv (emitted ts) s"
    by (rule reachable_inv)
  have ret: "\<forall>t \<in> set (tasks s). t = None" if "closed s"
    using inv that by (simp add: fanin_inv_def)
  have "step (Discovery i) s = None" if "closed s" for i
  proof (cases "i < length (tasks s)")
    case True
    then have "tasks s ! i \<in> set (tasks s)"
      by simp
    with ret [OF that] have "tasks s ! i = None"
      by blast
    with True show ?thesis
      by (simp add: step_def discovery_step_def)
  next
    case False
    then show ?thesis
      by (simp add: step_def discovery_step_def)
  qed
  with inv ret show ?thesis
    by (auto simp: fanin_inv_def pending_all_returned)
qed

theorem close_only_after_discovery_witness:
  "\<exists>s. exec [Discovery 0, Feeder, Discovery 0, Discovery 1, Discovery 1, Coordinator, Feeder,
            Feeder]
          (init [[Send ''a.example.com''], [Send ''b.example.com'']]) = Some s
       \<and> closed s \<and> httpxIn_closed s \<and> \<not> panicked s
       \<and> tasks s = [None, None] \<and> chan s = [] \<and> pending (tasks s) = []
       \<and> step (Discovery 0) s = None \<and> step (Discovery 1) s = None"
proof -
  let ?ts = "[[Send ''a.example.com''], [Send ''b.example.com'']]"
  let ?evs = "[Discovery 0, Feeder, Discovery 0, Discovery 1, Discovery 1, Coordinator, Feeder,
               Feeder]"
  have "\<exists>s. exec ?evs (init ?ts) = Some s \<and> closed s \<and> httpxIn_closed s
          \<and> tasks s = [None, None]"
    by (simp add: fanin_eval)
  then obtain s where e: "exec ?evs (init ?ts) = Some s" and c: "closed s" "httpxIn_closed s"
    and t: "tasks s = [None, None]"
    by blast
  from close_only_after_discovery [OF e] c
  have "\<not> panicked s" "chan s = []" "pending (tasks s) = []"
    "step (Discovery 0) s = None" "step (Discovery 1) s = None"
    by simp_all
  with e c t show ?thesis
    by blast
qed

subsection \<open>Timestamps\<close>

lemma is_digit_digit_char: "is_digit (digit_char n)"
proof -
  have "n mod 10 < length ''0123456789''"
    by simp
  then have "''0123456789'' ! (n mod 10) \<in> set ''0123456789''"
    by (rule nth_mem)
  then show ?thesis
    by (simp only: is_digit_def digit_char_def)
qed

lemma decimal_digits: "\<forall>c \<in> set (decimal n). is_digit c"
  by (induction n rule: decimal.induct) (subst decimal.simps, simp add: is_digit_digit_char)

lemma length_decimal: "n < 10 ^ w \<Longrightarrow> 0 < w \<Longrightarrow> length (decimal n) \<le> w"
proof (induction n arbitrary: w rule: decimal.induct)
  case (1 n)
  show ?case
  proof (cases "n < 10")
    case True
    with 1(3) show ?thesis by (subst decimal.simps) simp
  next
    case False
    with 1(2) have "1 < w" by (cases w; cases "w - 1") auto
    then obtain v where w: "w = Suc v" "0 < v" by (cases w) auto
    with 1(2) have "n div 10 < 10 ^ v" by (simp add: less_mult_imp_div_less)
    from 1(1) [OF False this w(2)] False w show ?thesis
      by (subst decimal.simps) simp
  qed
qed

lemma digits_append:
  "length xs = n \<Longrightarrow> \<forall>c \<in> set xs. is_digit c \<Longrightarrow> digits n (xs @ rest) = Some rest"
  by (induction xs arbitrary: n) auto

lemma is_digit_0: "is_digit (CHR ''0'')"
  by (simp add: is_digit_def)

lemma appendInt_shape:
  assumes "n < 10 ^ w" and "0 < w"
  shows "length (appendInt n w) = w \<and> (\<forall>c \<in> set (appendInt n w). is_digit c)"
proof -
  from assms have "length (decimal n) \<le> w"
    by (rule length_decimal)
  then have "length (appendInt n w) = w"
    by (simp add: appendInt_def)
  moreover have "\<forall>c \<in> set (appendInt n w). is_digit c"
    using decimal_digits [of n] by (auto simp: appendInt_def is_digit_0)
  ultimately show ?thesis
    by blast
qed

lemma digits_appendInt:
  assumes "n < 10 ^ w" and "0 < w"
  shows "digits w (appendInt n w @ rest) = Some rest"
proof -
  from appendInt_shape [OF assms]
  have "length (appendInt n w) = w" and "\<forall>c \<in> set (appendInt n w). is_digit c"
    by blast+
  then show ?thesis
    by (rule digits_append)
qed


lemma digits_appendInt_end:
  assumes "n < 10 ^ w" and "0 < w"
  shows "digits w (appendInt n w) = Some []"
  using digits_appendInt [OF assms, of "[]"] by simp

lemma zone_tail:
  assumes "h < 10 ^ 2" and "m < 10 ^ 2" and "sign = CHR ''+'' \<or> sign = CHR ''-''"
  shows "Option.bind (Option.bind (Option.bind
            (lit ''+-'' (sign # appendInt h 2 @ '':'' @ appendInt m 2)) (digits 2)) (lit '':''))
            (digits 2) = Some []"
proof -
  from assms(3) have "lit ''+-'' (sign # appendInt h 2 @ '':'' @ appendInt m 2)
        = Some (appendInt h 2 @ '':'' @ appendInt m 2)"
    by auto
  moreover have "digits 2 (appendInt h 2 @ '':'' @ appendInt m 2) = Some ('':'' @ appendInt m 2)"
    using assms(1) by (rule digits_appendInt) simp
  moreover have "lit '':'' ('':'' @ appendInt m 2) = Some (appendInt m 2)"
    by simp
  moreover have "digits 2 (appendInt m 2) = Some []"
    using assms(2) by (rule digits_appendInt_end) simp
  ultimately show ?thesis
    by (simp only: Option.bind.simps)
qed

lemma format_zone_shape:
  assumes "\<bar>off\<bar> < 86400"
  shows "format_zone off = ''Z'' \<or>
         Option.bind (Option.bind (Option.bind (lit ''+-'' (format_zone off)) (digits 2)) (lit '':''))
               (digits 2) = Some []"
proof (cases "off = 0")
  case True
  then show ?thesis by (simp add: format_zone_def)
next
  case False
  define z where "z = (if off < 0 then - ((- off) div 60) else off div 60)"
  define sign where "sign = (if z < 0 then CHR ''-'' else CHR ''+'')"
  define zone where "zone = nat \<bar>z\<bar>"
  have "zone < 1440"
    using assms by (auto simp: zone_def z_def)
  then have h: "zone div 60 < 10 ^ 2" and m: "zone mod 60 < 10 ^ 2"
    by auto
  have s: "sign = CHR ''+'' \<or> sign = CHR ''-''"
    by (simp add: sign_def)
  from False have "format_zone off = sign # appendInt (zone div 60) 2 @ '':'' @ appendInt (zone mod 60) 2"
    by (simp add: format_zone_def Let_def z_def sign_def zone_def)
  with zone_tail [OF h m s] show ?thesis
    by simp
qed


lemma is_RFC3339_format:
  assumes "valid_Time t"
  shows "is_RFC3339 (format_RFC3339 t)"
proof -
  from assms have y: "year t < 10 ^ 4" and mo: "month t < 10 ^ 2" and d: "day t < 10 ^ 2"
    and h: "hour t < 10 ^ 2" and mi: "minute t < 10 ^ 2" and s: "second t < 10 ^ 2"
    and z: "\<bar>zone_offset t\<bar> < 86400"
    by (simp_all add: valid_Time_def)
  have p4: "0 < (4::nat)" and p2: "0 < (2::nat)"
    by simp_all
  note dg = digits_appendInt [OF y p4] digits_appendInt [OF mo p2] digits_appendInt [OF d p2]
    digits_appendInt [OF h p2] digits_appendInt [OF mi p2] digits_appendInt [OF s p2]
  show ?thesis
    using format_zone_shape [OF z]
    by (simp add: is_RFC3339_def format_RFC3339_def dg)
qed

subsection \<open>The main goroutine\<close>

lemma process_line_adds:
  "process_line c l r =
     r\<lparr>stdout := stdout r @ line_records c l, spawned := spawned r @ line_spawns c l\<rparr>"
  by (simp add: process_line_def line_records_def line_spawns_def split: option.splits)

lemma httpx_loop_adds:
  "httpx_loop c ls r =
     r\<lparr>stdout := stdout r @ concat (map (line_records c) ls),
       spawned := spawned r @ concat (map (line_spawns c) ls)\<rparr>"
  by (induction ls arbitrary: r) (simp_all add: process_line_adds)

lemma checkBinaries_loop_find:
  "checkBinaries_loop path bs = map_option errRes (find (\<lambda>b. b \<notin> set path) bs)"
  by (induction bs) auto

lemma checkBinaries_None: "checkBinaries c e = None \<longleftrightarrow> set (bins c) \<subseteq> set (on_path e)"
  by (auto simp: checkBinaries_def checkBinaries_loop_find find_None_iff)

lemma find_missing:
  assumes "bin \<in> set bs" and "bin \<notin> set path"
  shows "\<exists>missing. find (\<lambda>b. b \<notin> set path) bs = Some missing \<and> missing \<in> set bs \<and> missing \<notin> set path"
proof (cases "find (\<lambda>b. b \<notin> set path) bs")
  case None
  with assms show ?thesis by (auto simp: find_None_iff)
next
  case (Some m)
  then show ?thesis by (auto simp: find_Some_iff)
qed

lemma main_go_missing:
  assumes "args c \<noteq> []" and "find (\<lambda>b. b \<notin> set (on_path e)) (bins c) = Some missing"
  shows "main_go c e =
           \<lparr>stdout = [errRes missing], stderr = [], spawned = [], goroutines = [], exit_status = 1\<rparr>"
  using assms
  by (cases "args c") (simp_all add: main_go_def checkBinaries_def checkBinaries_loop_find)

lemma main_go_started:
  assumes "args c = target # rest" and "set (bins c) \<subseteq> set (on_path e)"
    and "stdin_pipe_err e = None" and "stdout_pipe_err e = None" and "httpx_start_err e = None"
  shows "main_go c e =
           \<lparr>stdout = concat (map (line_records c) (httpx_lines e)),
            stderr = [],
            spawned = [httpx_argv, nmap_argv target] @ concat (map (line_spawns c) (httpx_lines e)),
            goroutines = Subfinder_task # (if useDeep c then [Amass_task] else [])
              @ (if nmap_start_err e = None then [Nmap_wait] else [])
              @ [Coordinator_task, Feeder_task],
            exit_status = 0\<rparr>"
proof -
  from assms(2) have "checkBinaries c e = None"
    by (simp only: checkBinaries_None)
  with assms(1,3,4,5) show ?thesis
    by (simp add: main_go_def httpx_loop_adds)
qed

lemma main_go_fatal:
  assumes "args c = target # rest" and "set (bins c) \<subseteq> set (on_path e)"
  shows "stdin_pipe_err e = Some err \<Longrightarrow>
           main_go c e = \<lparr>stdout = [], stderr = [''Error: Failed to create httpx stdin pipe: '' @ err],
             spawned = [], goroutines = Subfinder_task # (if useDeep c then [Amass_task] else []),
             exit_status = 1\<rparr>"
    and "stdin_pipe_err e = None \<Longrightarrow> stdout_pipe_err e = Some err \<Longrightarrow>
           main_go c e = \<lparr>stdout = [], stderr = [''Error: Failed to create httpx stdout pipe: '' @ err],
             spawned = [], goroutines = Subfinder_task # (if useDeep c then [Amass_task] else []),
             exit_status = 1\<rparr>"
    and "stdin_pipe_err e = None \<Longrightarrow> stdout_pipe_err e = None \<Longrightarrow> httpx_start_err e = Some err \<Longrightarrow>
           main_go c e = \<lparr>stdout = [], stderr = [''Error: Failed to start httpx: '' @ err],
             spawned = [httpx_argv], goroutines = Subfinder_task # (if useDeep c then [Amass_task] else []),
             exit_status = 1\<rparr>"
proof -
  from assms(2) have cb: "checkBinaries c e = None"
    by (simp only: checkBinaries_None)
  show "stdin_pipe_err e = Some err \<Longrightarrow>
           main_go c e = \<lparr>stdout = [], stderr = [''Error: Failed to create httpx stdin pipe: '' @ err],
             spawned = [], goroutines = Subfinder_task # (if useDeep c then [Amass_task] else []),
             exit_status = 1\<rparr>"
    using assms(1) cb by (simp add: main_go_def fatalError_def)
  show "stdin_pipe_err e = None \<Longrightarrow> stdout_pipe_err e = Some err \<Longrightarrow>
           main_go c e = \<lparr>stdout = [], stderr = [''Error: Failed to create httpx stdout pipe: '' @ err],
             spawned = [], goroutines = Subfinder_task # (if useDeep c then [Amass_task] else []),
             exit_status = 1\<rparr>"
    using assms(1) cb by (simp add: main_go_def fatalError_def)
  show "stdin_pipe_err e = None \<Longrightarrow> stdout_pipe_err e = None \<Longrightarrow> httpx_start_err e = Some err \<Longrightarrow>
           main_go c e = \<lparr>stdout = [], stderr = [''Error: Failed to start httpx: '' @ err],
             spawned = [httpx_argv], goroutines = Subfinder_task # (if useDeep c then [Amass_task] else []),
             exit_status = 1\<rparr>"
    using assms(1) cb by (simp add: main_go_def fatalError_def)
qed

text \<open>
  C5. When \<open>main\<close> is given a target and some binary of the pre-flight list is not on the
  search path, the run consists of one JSON object on standard output, naming the first
  missing binary of the list, and exit status 1: nothing on standard error, no command run
  and no goroutine launched.
\<close>

theorem missing_binary_reported_once:
  assumes "args c \<noteq> []" and "bin \<in> set (bins c)" and "bin \<notin> set (on_path e)"
  shows "\<exists>missing. find (\<lambda>b. b \<notin> set (on_path e)) (bins c) = Some missing
           \<and> missing \<in> set (bins c) \<and> missing \<notin> set (on_path e)
           \<and> main_go c e =
               \<lparr>stdout = [JObj [(''error'', JStr (''Missing binary: '' @ missing)),
                                 (''message'', JStr ''Please install required tools in PATH'')]],
                stderr = [], spawned = [], goroutines = [], exit_status = 1\<rparr>"
proof -
  from find_missing [OF assms(2,3)] obtain missing where
    m: "find (\<lambda>b. b \<notin> set (on_path e)) (bins c) = Some missing"
      "missing \<in> set (bins c)" "missing \<notin> set (on_path e)"
    by blast
  from main_go_missing [OF assms(1) m(1)] m show ?thesis
    by (simp add: errRes_def)
qed

theorem missing_binary_reported_once_witness:
  "args \<lparr>prog = ''recon-engine'', useDeep = False, useFingerprint = True, args = [''example.com'']\<rparr> \<noteq> []
   \<and> ''whatweb'' \<in> set (bins \<lparr>prog = ''recon-engine'', useDeep = False, useFingerprint = True,
                                args = [''example.com'']\<rparr>)
   \<and> ''whatweb'' \<notin> set (on_path \<lparr>on_path = [''subfinder'', ''httpx'', ''nmap''], stdin_pipe_err = None,
                                   stdout_pipe_err = None, httpx_start_err = None,
                                   nmap_start_err = None, httpx_lines = []\<rparr>)
   \<and> main_go \<lparr>prog = ''recon-engine'', useDeep = False, useFingerprint = True, args = [''example.com'']\<rparr>
        \<lparr>on_path = [''subfinder'', ''httpx'', ''nmap''], stdin_pipe_err = None, stdout_pipe_err = None,
         httpx_start_err = None, nmap_start_err = None, httpx_lines = []\<rparr>
       = \<lparr>stdout = [JObj [(''error'', JStr ''Missing binary: whatweb''),
                          (''message'', JStr ''Please install required tools in PATH'')]],
          stderr = [], spawned = [], goroutines = [], exit_status = 1\<rparr>"
proof -
  let ?c = "\<lparr>prog = ''recon-engine'', useDeep = False, useFingerprint = True, args = [''example.com'']\<rparr>"
  let ?e = "\<lparr>on_path = [''subfinder'', ''httpx'', ''nmap''], stdin_pipe_err = None,
             stdout_pipe_err = None, httpx_start_err = None, nmap_start_err = None, httpx_lines = []\<rparr>"
  have a: "args ?c \<noteq> []" and b: "''whatweb'' \<in> set (bins ?c)" and p: "''whatweb'' \<notin> set (on_path ?e)"
    by (simp_all add: bins_def)
  have f: "find (\<lambda>b. b \<notin> set (on_path ?e)) (bins ?c) = Some ''whatweb''"
    by (simp add: bins_def)
  from missing_binary_reported_once [OF a b p] f a b p show ?thesis
    by simp
qed

text \<open>
  C4, as the claim states it, fails: when creating the standard-input pipe of httpx fails,
  the program writes nothing to standard output; \<open>fatalError\<close> prints a plain line on
  standard error.
\<close>

theorem fatal_error_json_counterexample:
  "main_go \<lparr>prog = ''recon-engine'', useDeep = False, useFingerprint = False, args = [''example.com'']\<rparr>
     \<lparr>on_path = [''subfinder'', ''httpx'', ''nmap''], stdin_pipe_err = Some ''too many open files'',
      stdout_pipe_err = None, httpx_start_err = None, nmap_start_err = None, httpx_lines = []\<rparr>
   = \<lparr>stdout = [],
      stderr = [''Error: Failed to create httpx stdin pipe: too many open files''],
      spawned = [], goroutines = [Subfinder_task], exit_status = 1\<rparr>"
  by (simp add: main_go_def checkBinaries_def bins_def fatalError_def)

text \<open>
  C4, amended. With a target given: a missing required binary gives exactly one JSON object
  with the keys \<open>error\<close> and \<open>message\<close> on standard output, nothing on standard error and
  exit status 1; a failure to create either pipe of httpx, or to start httpx, gives nothing
  on standard output, one line \<open>Error: ...\<close> on standard error and exit status 1.
\<close>

theorem fatal_startup_failures:
  assumes "args c \<noteq> []"
  shows "(\<forall>missing. find (\<lambda>b. b \<notin> set (on_path e)) (bins c) = Some missing \<longrightarrow>
            stdout (main_go c e) =
              [JObj [(''error'', JStr (''Missing binary: '' @ missing)),
                     (''message'', JStr ''Please install required tools in PATH'')]]
            \<and> stderr (main_go c e) = [] \<and> exit_status (main_go c e) = 1)
         \<and> (set (bins c) \<subseteq> set (on_path e) \<longrightarrow>
              (\<forall>err. stdin_pipe_err e = Some err \<longrightarrow>
                 stdout (main_go c e) = []
                 \<and> stderr (main_go c e) = [''Error: Failed to create httpx stdin pipe: '' @ err]
                 \<and> exit_status (main_go c e) = 1)
            \<and> (\<forall>err. stdin_pipe_err e = None \<and> stdout_pipe_err e = Some err \<longrightarrow>
                 stdout (main_go c e) = []
                 \<and> stderr (main_go c e) = [''Error: Failed to create httpx stdout pipe: '' @ err]
                 \<and> exit_status (main_go c e) = 1)
            \<and> (\<forall>err. stdin_pipe_err e = None \<and> stdout_pipe_err e = None
                      \<and> httpx_start_err e = Some err \<longrightarrow>
                 stdout (main_go c e) = []
                 \<and> stderr (main_go c e) = [''Error: Failed to start httpx: '' @ err]
                 \<and> exit_status (main_go c e) = 1))"
proof -
  from assms obtain target rest where a: "args c = target # rest"
    by (cases "args c") auto
  have "stdout (main_go c e) =
          [JObj [(''error'', JStr (''Missing binary: '' @ missing)),
                 (''message'', JStr ''Please install required tools in PATH'')]]
        \<and> stderr (main_go c e) = [] \<and> exit_status (main_go c e) = 1"
    if "find (\<lambda>b. b \<notin> set (on_path e)) (bins c) = Some missing" for missing
    using main_go_missing [OF assms that] by (simp add: errRes_def)
  moreover have "stdout (main_go c e) = []
        \<and> stderr (main_go c e) = [''Error: Failed to create httpx stdin pipe: '' @ err]
        \<and> exit_status (main_go c e) = 1"
    if "set (bins c) \<subseteq> set (on_path e)" "stdin_pipe_err e = Some err" for err
    using main_go_fatal(1) [OF a that] by simp
  moreover have "stdout (main_go c e) = []
        \<and> stderr (main_go c e) = [''Error: Failed to create httpx stdout pipe: '' @ err]
        \<and> exit_status (main_go c e) = 1"
    if "set (bins c) \<subseteq> set (on_path e)" "stdin_pipe_err e = None" "stdout_pipe_err e = Some err" for err
    using main_go_fatal(2) [OF a that] by simp
  moreover have "stdout (main_go c e) = []
        \<and> stderr (main_go c e) = [''Error: Failed to start httpx: '' @ err]
        \<and> exit_status (main_go c e) = 1"
    if "set (bins c) \<subseteq> set (on_path e)" "stdin_pipe_err e = None" "stdout_pipe_err e = None"
      "httpx_start_err e = Some err" for err
    using main_go_fatal(3) [OF a that] by simp
  ultimately show ?thesis
    by blast
qed

theorem fatal_startup_failures_witness:
  "args \<lparr>prog = ''recon-engine'', useDeep = True, useFingerprint = False, args = [''example.com'']\<rparr> \<noteq> []
   \<and> find (\<lambda>b. b \<notin> set [''subfinder'', ''httpx'', ''nmap''])
        (bins \<lparr>prog = ''recon-engine'', useDeep = True, useFingerprint = False, args = [''example.com'']\<rparr>)
       = Some ''amass''
   \<and> stdout (main_go \<lparr>prog = ''recon-engine'', useDeep = True, useFingerprint = False,
                        args = [''example.com'']\<rparr>
        \<lparr>on_path = [''subfinder'', ''httpx'', ''nmap''], stdin_pipe_err = None, stdout_pipe_err = None,
         httpx_start_err = None, nmap_start_err = None, httpx_lines = []\<rparr>)
       = [JObj [(''error'', JStr ''Missing binary: amass''),
                (''message'', JStr ''Please install required tools in PATH'')]]
   \<and> set (bins \<lparr>prog = ''recon-engine'', useDeep = True, useFingerprint = False,
                 args = [''example.com'']\<rparr>) \<subseteq> set [''subfinder'', ''httpx'', ''nmap'', ''amass'']
   \<and> stdout (main_go \<lparr>prog = ''recon-engine'', useDeep = True, useFingerprint = False,
                        args = [''example.com'']\<rparr>
        \<lparr>on_path = [''subfinder'', ''httpx'', ''nmap'', ''amass''], stdin_pipe_err = None,
         stdout_pipe_err = None, httpx_start_err = Some ''exec format error'',
         nmap_start_err = None, httpx_lines = []\<rparr>) = []
   \<and> stderr (main_go \<lparr>prog = ''recon-engine'', useDeep = True, useFingerprint = False,
                        args = [''example.com'']\<rparr>
        \<lparr>on_path = [''subfinder'', ''httpx'', ''nmap'', ''amass''], stdin_pipe_err = None,
         stdout_pipe_err = None, httpx_start_err = Some ''exec format error'',
         nmap_start_err = None, httpx_lines = []\<rparr>)
       = [''Error: Failed to start httpx: exec format error'']
   \<and> exit_status (main_go \<lparr>prog = ''recon-engine'', useDeep = True, useFingerprint = False,
                        args = [''example.com'']\<rparr>
        \<lparr>on_path = [''subfinder'', ''httpx'', ''nmap'', ''amass''], stdin_pipe_err = None,
         stdout_pipe_err = None, httpx_start_err = Some ''exec format error'',
         nmap_start_err = None, httpx_lines = []\<rparr>) = 1"
proof -
  let ?c = "\<lparr>prog = ''recon-engine'', useDeep = True, useFingerprint = False, args = [''example.com'']\<rparr>"
  let ?e1 = "\<lparr>on_path = [''subfinder'', ''httpx'', ''nmap''], stdin_pipe_err = None,
              stdout_pipe_err = None, httpx_start_err = None, nmap_start_err = None, httpx_lines = []\<rparr>"
  let ?e2 = "\<lparr>on_path = [''subfinder'', ''httpx'', ''nmap'', ''amass''], stdin_pipe_err = None,
              stdout_pipe_err = None, httpx_start_err = Some ''exec format error'',
              nmap_start_err = None, httpx_lines = []\<rparr>"
  have a: "args ?c \<noteq> []"
    by simp
  have f: "find (\<lambda>b. b \<notin> set [''subfinder'', ''httpx'', ''nmap'']) (bins ?c) = Some ''amass''"
    by (simp add: bins_def)
  have s: "set (bins ?c) \<subseteq> set [''subfinder'', ''httpx'', ''nmap'', ''amass'']"
    by (simp add: bins_def)
  from fatal_startup_failures [OF a, of ?e1] f
  have 1: "stdout (main_go ?c ?e1) = [JObj [(''error'', JStr ''Missing binary: amass''),
                (''message'', JStr ''Please install required tools in PATH'')]]"
    by simp
  from fatal_startup_failures [OF a, of ?e2] s
  have 2: "stdout (main_go ?c ?e2) = []"
    "stderr (main_go ?c ?e2) = [''Error: Failed to start httpx: exec format error'']"
    "exit_status (main_go ?c ?e2) = 1"
    by simp_all
  from a f s 1 2 show ?thesis
    by blast
qed

text \<open>
  C10. \<open>nmap\<close> is in the pre-flight list of every configuration. Whenever the start-up
  succeeds (target given, all binaries found, both pipes created, httpx started), the second
  command \<open>main\<close> runs, right after httpx, is
  \<open>nmap -F --top-ports 100 <target> -oN nmap-scan.txt\<close>, whatever the two flags are; and what
  the run prints, what it runs and how it exits do not depend on how that start turns out:
  nothing is read from nmap.
\<close>

theorem nmap_required_and_always_spawned:
  "''nmap'' \<in> set (bins c)
   \<and> (args c = target # rest \<and> set (bins c) \<subseteq> set (on_path e) \<and> stdin_pipe_err e = None
        \<and> stdout_pipe_err e = None \<and> httpx_start_err e = None \<longrightarrow>
        take 2 (spawned (main_go c e)) =
          [httpx_argv, [''nmap'', ''-F'', ''--top-ports'', ''100'', target, ''-oN'', ''nmap-scan.txt'']]
        \<and> exit_status (main_go c e) = 0
        \<and> stdout (main_go c (e\<lparr>nmap_start_err := outcome\<rparr>)) = stdout (main_go c e)
        \<and> stderr (main_go c (e\<lparr>nmap_start_err := outcome\<rparr>)) = stderr (main_go c e)
        \<and> spawned (main_go c (e\<lparr>nmap_start_err := outcome\<rparr>)) = spawned (main_go c e)
        \<and> exit_status (main_go c (e\<lparr>nmap_start_err := outcome\<rparr>)) = exit_status (main_go c e))"
proof (intro conjI impI)
  show "''nmap'' \<in> set (bins c)"
    by (simp add: bins_def)
next
  assume h: "args c = target # rest \<and> set (bins c) \<subseteq> set (on_path e) \<and> stdin_pipe_err e = None
        \<and> stdout_pipe_err e = None \<and> httpx_start_err e = None"
  then have m: "main_go c e = \<lparr>stdout = concat (map (line_records c) (httpx_lines e)),
            stderr = [],
            spawned = [httpx_argv, nmap_argv target] @ concat (map (line_spawns c) (httpx_lines e)),
            goroutines = Subfinder_task # (if useDeep c then [Amass_task] else [])
              @ (if nmap_start_err e = None then [Nmap_wait] else [])
              @ [Coordinator_task, Feeder_task],
            exit_status = 0\<rparr>"
    by (intro main_go_started) simp_all
  from h have m': "main_go c (e\<lparr>nmap_start_err := outcome\<rparr>) =
           \<lparr>stdout = concat (map (line_records c) (httpx_lines (e\<lparr>nmap_start_err := outcome\<rparr>))),
            stderr = [],
            spawned = [httpx_argv, nmap_argv target]
              @ concat (map (line_spawns c) (httpx_lines (e\<lparr>nmap_start_err := outcome\<rparr>))),
            goroutines = Subfinder_task # (if useDeep c then [Amass_task] else [])
              @ (if nmap_start_err (e\<lparr>nmap_start_err := outcome\<rparr>) = None then [Nmap_wait] else [])
              @ [Coordinator_task, Feeder_task],
            exit_status = 0\<rparr>"
    by (intro main_go_started) simp_all
  show "take 2 (spawned (main_go c e)) =
          [httpx_argv, [''nmap'', ''-F'', ''--top-ports'', ''100'', target, ''-oN'', ''nmap-scan.txt'']]"
    by (simp add: m nmap_argv_def)
  show "exit_status (main_go c e) = 0"
    by (simp add: m)
  show "stdout (main_go c (e\<lparr>nmap_start_err := outcome\<rparr>)) = stdout (main_go c e)"
    by (simp add: m m')
  show "stderr (main_go c (e\<lparr>nmap_start_err := outcome\<rparr>)) = stderr (main_go c e)"
    by (simp add: m m')
  show "spawned (main_go c (e\<lparr>nmap_start_err := outcome\<rparr>)) = spawned (main_go c e)"
    by (simp add: m m')
  show "exit_status (main_go c (e\<lparr>nmap_start_err := outcome\<rparr>)) = exit_status (main_go c e)"
    by (simp add: m m')
qed

theorem nmap_required_and_always_spawned_witness:
  "''nmap'' \<in> set (bins \<lparr>prog = ''recon-engine'', useDeep = False, useFingerprint = False,
                          args = [''example.com'']\<rparr>)
   \<and> set (bins \<lparr>prog = ''recon-engine'', useDeep = False, useFingerprint = False,
                 args = [''example.com'']\<rparr>) \<subseteq> set [''subfinder'', ''httpx'', ''nmap'']
   \<and> spawned (main_go \<lparr>prog = ''recon-engine'', useDeep = False, useFingerprint = False,
                         args = [''example.com'']\<rparr>
        \<lparr>on_path = [''subfinder'', ''httpx'', ''nmap''], stdin_pipe_err = None, stdout_pipe_err = None,
         httpx_start_err = None, nmap_start_err = None, httpx_lines = []\<rparr>)
       = [httpx_argv, [''nmap'', ''-F'', ''--top-ports'', ''100'', ''example.com'', ''-oN'', ''nmap-scan.txt'']]
   \<and> stdout (main_go \<lparr>prog = ''recon-engine'', useDeep = False, useFingerprint = False,
                         args = [''example.com'']\<rparr>
        \<lparr>on_path = [''subfinder'', ''httpx'', ''nmap''], stdin_pipe_err = None, stdout_pipe_err = None,
         httpx_start_err = None, nmap_start_err = Some ''permission denied'', httpx_lines = []\<rparr>)
       = stdout (main_go \<lparr>prog = ''recon-engine'', useDeep = False, useFingerprint = False,
                         args = [''example.com'']\<rparr>
        \<lparr>on_path = [''subfinder'', ''httpx'', ''nmap''], stdin_pipe_err = None, stdout_pipe_err = None,
         httpx_start_err = None, nmap_start_err = None, httpx_lines = []\<rparr>)"
proof -
  let ?c = "\<lparr>prog = ''recon-engine'', useDeep = False, useFingerprint = False, args = [''example.com'']\<rparr>"
  let ?e = "\<lparr>on_path = [''subfinder'', ''httpx'', ''nmap''], stdin_pipe_err = None,
             stdout_pipe_err = None, httpx_start_err = None, nmap_start_err = None, httpx_lines = []\<rparr>"
  have s: "set (bins ?c) \<subseteq> set [''subfinder'', ''httpx'', ''nmap'']"
    by (simp add: bins_def)
  have l: "length (spawned (main_go ?c ?e)) = 2"
    by (simp add: main_go_def checkBinaries_def bins_def)
  from nmap_required_and_always_spawned
    [of ?c "''example.com''" "[]" ?e "Some ''permission denied''"] s
  have n: "''nmap'' \<in> set (bins ?c)"
    and t: "take 2 (spawned (main_go ?c ?e)) =
      [httpx_argv, [''nmap'', ''-F'', ''--top-ports'', ''100'', ''example.com'', ''-oN'', ''nmap-scan.txt'']]"
    and o: "stdout (main_go ?c (?e\<lparr>nmap_start_err := Some ''permission denied''\<rparr>)) = stdout (main_go ?c ?e)"
    by simp_all
  from t l have "spawned (main_go ?c ?e) =
      [httpx_argv, [''nmap'', ''-F'', ''--top-ports'', ''100'', ''example.com'', ''-oN'', ''nmap-scan.txt'']]"
    by simp
  moreover from o have "stdout (main_go ?c
        \<lparr>on_path = [''subfinder'', ''httpx'', ''nmap''], stdin_pipe_err = None, stdout_pipe_err = None,
         httpx_start_err = None, nmap_start_err = Some ''permission denied'', httpx_lines = []\<rparr>)
       = stdout (main_go ?c ?e)"
    by simp
  ultimately show ?thesis
    using n s by blast
qed

subsection \<open>One line of httpx output\<close>

lemma apply_whatweb_keeps:
  "Asn (apply_whatweb le res) = Asn res" "Org (apply_whatweb le res) = Org res"
  "Timestamp (apply_whatweb le res) = Timestamp res" "Subdomain (apply_whatweb le res) = Subdomain res"
  "StatusCode (apply_whatweb le res) = StatusCode res" "Title (apply_whatweb le res) = Title res"
  "Vulnerabilities (apply_whatweb le res) = Vulnerabilities res" "Source (apply_whatweb le res) = Source res"
  by (simp_all add: apply_whatweb_def Let_def split: cmd_output.splits option.splits list.splits)

lemma final_Result_keeps:
  "Asn (final_Result fp le hRes) = Asn (join_infra (index le) hRes (new_Result (clock le) hRes))"
  "Org (final_Result fp le hRes) = Org (join_infra (index le) hRes (new_Result (clock le) hRes))"
  by (simp_all add: final_Result_def Let_def apply_whatweb_keeps)

lemma json_field_asn:
  "json_field (encode_Result r) ''asn'' = (if Asn r = [] then None else Some (JStr (Asn r)))"
  by (simp add: json_field_def encode_Result_def split: option.splits)

lemma json_field_org:
  "json_field (encode_Result r) ''org'' = (if Org r = [] then None else Some (JStr (Org r)))"
  by (simp add: json_field_def encode_Result_def split: option.splits)

lemma json_field_versions_None:
  "Versions r = None \<Longrightarrow> json_field (encode_Result r) ''versions'' = None"
  by (simp add: json_field_def encode_Result_def)


lemma json_field_fixed:
  "json_field (encode_Result r) ''timestamp'' = Some (JStr (Timestamp r))"
  "json_field (encode_Result r) ''subdomain'' = Some (JStr (Subdomain r))"
  "json_field (encode_Result r) ''status_code'' = Some (JNum (StatusCode r))"
  "json_field (encode_Result r) ''title'' = Some (JStr (Title r))"
  "json_field (encode_Result r) ''tech_stack'' =
     Some (if TechStack r = [] then JNull else JArr (map JStr (TechStack r)))"
  "json_field (encode_Result r) ''vulnerabilities'' = Some (JArr (map JObj (Vulnerabilities r)))"
  "json_field (encode_Result r) ''source'' = Some (JStr (Source r))"
  by (simp_all add: json_field_def encode_Result_def)

lemma Sprintf_d_nonempty: "Sprintf_d i \<noteq> []"
  by (simp add: Sprintf_d_def) (subst decimal.simps, simp)

lemma enrichment_failure_unmodified:
  assumes "whatweb_out le = Failed
           \<or> (\<exists>out. whatweb_out le = Stdout out
                 \<and> (Unmarshal_WhatWebResults out = None \<or> Unmarshal_WhatWebResults out = Some []))"
  shows "apply_whatweb le res = res"
  using assms by (auto simp: apply_whatweb_def)

lemma digit_char_inj: "digit_char a = digit_char b \<Longrightarrow> a mod 10 = b mod 10"
proof -
  assume "digit_char a = digit_char b"
  moreover have "distinct ''0123456789''" by simp
  moreover have "a mod 10 < length ''0123456789''" "b mod 10 < length ''0123456789''" by simp_all
  ultimately show ?thesis
    unfolding digit_char_def by (simp only: nth_eq_iff_index_eq)
qed

lemma decimal_nonempty: "decimal n \<noteq> []"
  by (subst decimal.simps) simp

lemma decimal_inj: "decimal n = decimal m \<Longrightarrow> n = m"
proof (induction n arbitrary: m rule: decimal.induct)
  case (1 n)
  show ?case
  proof (cases "n < 10")
    case n: True
    show ?thesis
    proof (cases "m < 10")
      case True
      with n 1(2) have "digit_char n = digit_char m"
        by (simp add: decimal.simps [of n] decimal.simps [of m])
      then have "n mod 10 = m mod 10" by (rule digit_char_inj)
      with n True show ?thesis by simp
    next
      case False
      with n 1(2) have "[digit_char n] = decimal (m div 10) @ [digit_char (m mod 10)]"
        by (simp add: decimal.simps [of n] decimal.simps [of m])
      then have "decimal (m div 10) = []" by simp
      with decimal_nonempty show ?thesis by blast
    qed
  next
    case n: False
    show ?thesis
    proof (cases "m < 10")
      case True
      with n 1(2) have "decimal (n div 10) @ [digit_char (n mod 10)] = [digit_char m]"
        by (simp add: decimal.simps [of n] decimal.simps [of m])
      then have "decimal (n div 10) = []" by simp
      with decimal_nonempty show ?thesis by blast
    next
      case False
      with n 1(2) have "decimal (n div 10) @ [digit_char (n mod 10)]
                        = decimal (m div 10) @ [digit_char (m mod 10)]"
        by (simp add: decimal.simps [of n] decimal.simps [of m])
      then have d: "decimal (n div 10) = decimal (m div 10)"
        and dc: "digit_char (n mod 10) = digit_char (m mod 10)"
        by simp_all
      from dc have "n mod 10 mod 10 = m mod 10 mod 10"
        by (rule digit_char_inj)
      then have md: "n mod 10 = m mod 10"
        by simp
      from 1(1) [OF n d] have dv: "n div 10 = m div 10" .
      have "n = n div 10 * 10 + n mod 10"
        by simp
      also have "\<dots> = m div 10 * 10 + m mod 10"
        by (simp only: md dv)
      also have "\<dots> = m"
        by simp
      finally show ?thesis .
    qed
  qed
qed

lemma decimal_no_minus: "hd (decimal n) \<noteq> CHR ''-''"
proof -
  have "hd (decimal n) \<in> set (decimal n)"
    using decimal_nonempty by simp
  with decimal_digits have "is_digit (hd (decimal n))"
    by blast
  then show ?thesis
    by (auto simp: is_digit_def)
qed

lemma Sprintf_d_inj: "Sprintf_d a = Sprintf_d b \<Longrightarrow> a = b"
proof -
  assume eq: "Sprintf_d a = Sprintf_d b"
  consider "a < 0" "b < 0" | "a < 0" "\<not> b < 0" | "\<not> a < 0" "b < 0" | "\<not> a < 0" "\<not> b < 0"
    by blast
  then show ?thesis
  proof cases
    case 1
    with eq have "decimal (nat (- a)) = decimal (nat (- b))" by (simp add: Sprintf_d_def)
    then have "nat (- a) = nat (- b)" by (rule decimal_inj)
    with 1 show ?thesis by simp
  next
    case 2
    with eq have "CHR ''-'' # decimal (nat (- a)) = decimal (nat b)" by (simp add: Sprintf_d_def)
    then have "hd (decimal (nat b)) = CHR ''-''" by (metis list.sel(1))
    with decimal_no_minus show ?thesis by blast
  next
    case 3
    with eq have "decimal (nat a) = CHR ''-'' # decimal (nat (- b))" by (simp add: Sprintf_d_def)
    then have "hd (decimal (nat a)) = CHR ''-''" by (metis list.sel(1))
    with decimal_no_minus show ?thesis by blast
  next
    case 4
    with eq have "decimal (nat a) = decimal (nat b)" by (simp add: Sprintf_d_def)
    then have "nat a = nat b" by (rule decimal_inj)
    with 4 show ?thesis by simp
  qed
qed

lemma line_records_decoded:
  "Unmarshal_HttpxResult b = Some hRes \<Longrightarrow>
     line_records c (b, le) = [encode_Result (final_Result (useFingerprint c) le hRes)]"
  by (simp add: line_records_def)

lemma join_infra_fields:
  "Asn (join_infra m hRes (new_Result t hRes)) =
     (case map_of m (Input hRes) of None \<Rightarrow> [] | Some i \<Rightarrow> ''AS'' @ Sprintf_d (inf_Asn i))"
  "Org (join_infra m hRes (new_Result t hRes)) =
     (case map_of m (Input hRes) of None \<Rightarrow> [] | Some i \<Rightarrow> inf_Org i)"
  by (simp_all add: join_infra_def new_Result_def split: option.splits)

text \<open>
  C3, as the claim states it, fails: amass reports an address without a description, the
  entry is stored with an empty organization, and the record emitted for that host has the
  \<open>asn\<close> field but no \<open>org\<close> field.
\<close>

theorem org_absent_for_stored_entry_counterexample:
  "amass_line (JSON (JObj [(''name'', JStr ''a.example.com''),
                           (''addresses'', JArr [JObj [(''asn'', JNum 64500)]])]))
     = [Send ''a.example.com'', Put ''a.example.com'' \<lparr>inf_Asn = 64500, inf_Org = []\<rparr>]
   \<and> map_of [(''a.example.com'', \<lparr>inf_Asn = 64500, inf_Org = []\<rparr>)] ''a.example.com''
       = Some \<lparr>inf_Asn = 64500, inf_Org = []\<rparr>
   \<and> stdout (process_line
        \<lparr>prog = ''recon-engine'', useDeep = True, useFingerprint = False, args = [''example.com'']\<rparr>
        (JSON (JObj [(''input'', JStr ''a.example.com''), (''url'', JStr ''https://a.example.com''),
                     (''status_code'', JNum 200), (''title'', JStr ''T'')]),
         \<lparr>clock = \<lparr>year = 2026, month = 10, day = 30, hour = 9, minute = 5, second = 0,
                    zone_offset = 0\<rparr>,
          index = [(''a.example.com'', \<lparr>inf_Asn = 64500, inf_Org = []\<rparr>)],
          whatweb_out = Failed, range_rank = length\<rparr>)
        \<lparr>stdout = [], stderr = [], spawned = [], goroutines = [], exit_status = 0\<rparr>)
       = [JObj [(''timestamp'', JStr ''2026-10-30T09:05:00Z''),
                (''subdomain'', JStr ''a.example.com''),
                (''status_code'', JNum 200),
                (''title'', JStr ''T''),
                (''tech_stack'', JNull),
                (''vulnerabilities'', JArr []),
                (''source'', JStr ''recon_pipeline''),
                (''asn'', JStr ''AS64500'')]]"
  by (simp add: amass_line_def Unmarshal_AmassResult_def AmassResult_field_def Address_field_def
      zero_AmassResult_def zero_Address_def dec_struct_def dec_slice_def dec_string_def dec_int_def
      lower_def process_line_def Unmarshal_HttpxResult_def HttpxResult_field_def
      zero_HttpxResult_def final_Result_def fingerprinted_def join_infra_def new_Result_def
      extractTech_def encode_Result_def format_RFC3339_def appendInt_def format_zone_def
      decimal.simps digit_char_def Sprintf_d_def)

text \<open>
  C3, amended. For a line of httpx output that decodes: when the index holds an entry for
  the line's \<open>input\<close> at the time of the lookup, the emitted object has \<open>asn\<close> equal to \<open>AS\<close>
  followed by the entry's network number in decimal (never empty, and different numbers give
  different texts), and it has \<open>org\<close> equal to the entry's organization when that is not
  empty, while an empty organization leaves \<open>org\<close> out; when the index holds no entry, both
  \<open>asn\<close> and \<open>org\<close> are absent. The lookup key is the record's \<open>subdomain\<close>.
\<close>

theorem infra_join_fields:
  assumes "Unmarshal_HttpxResult b = Some hRes"
  shows "\<exists>rec. stdout (process_line c (b, le) r) = stdout r @ [rec]
           \<and> json_field rec ''subdomain'' = Some (JStr (Input hRes))
           \<and> (\<forall>info. map_of (index le) (Input hRes) = Some info \<longrightarrow>
                  json_field rec ''asn'' = Some (JStr (''AS'' @ Sprintf_d (inf_Asn info)))
                  \<and> ''AS'' @ Sprintf_d (inf_Asn info) \<noteq> []
                  \<and> (\<forall>n. ''AS'' @ Sprintf_d n = ''AS'' @ Sprintf_d (inf_Asn info) \<longrightarrow> n = inf_Asn info)
                  \<and> json_field rec ''org'' =
                      (if inf_Org info = [] then None else Some (JStr (inf_Org info))))
           \<and> (map_of (index le) (Input hRes) = None \<longrightarrow>
                  json_field rec ''asn'' = None \<and> json_field rec ''org'' = None)"
proof -
  let ?res = "final_Result (useFingerprint c) le hRes"
  let ?rec = "encode_Result ?res"
  from assms have out: "stdout (process_line c (b, le) r) = stdout r @ [?rec]"
    by (simp add: process_line_def)
  have "Subdomain ?res = Input hRes"
    by (simp add: final_Result_def Let_def apply_whatweb_keeps join_infra_def new_Result_def
        split: option.splits)
  then have sub: "json_field ?rec ''subdomain'' = Some (JStr (Input hRes))"
    by (simp only: json_field_fixed)
  have inj: "n = k" if "''AS'' @ Sprintf_d n = ''AS'' @ Sprintf_d k" for n k
  proof -
    from that have "Sprintf_d n = Sprintf_d k"
      by simp
    then show ?thesis
      by (rule Sprintf_d_inj)
  qed
  show ?thesis
  proof (rule exI [of _ ?rec], intro conjI allI impI)
    show "stdout (process_line c (b, le) r) = stdout r @ [?rec]"
      by (rule out)
    show "json_field ?rec ''subdomain'' = Some (JStr (Input hRes))"
      by (rule sub)
  next
    fix info
    assume "map_of (index le) (Input hRes) = Some info"
    then have "Asn ?res = ''AS'' @ Sprintf_d (inf_Asn info)"
      by (simp add: final_Result_keeps join_infra_fields)
    then show "json_field ?rec ''asn'' = Some (JStr (''AS'' @ Sprintf_d (inf_Asn info)))"
      by (simp add: json_field_asn)
  next
    fix info
    show "''AS'' @ Sprintf_d (inf_Asn info) \<noteq> []"
      by simp
  next
    fix info n
    assume "''AS'' @ Sprintf_d n = ''AS'' @ Sprintf_d (inf_Asn info)"
    then show "n = inf_Asn info"
      by (rule inj)
  next
    fix info
    assume "map_of (index le) (Input hRes) = Some info"
    then have "Org ?res = inf_Org info"
      by (simp add: final_Result_keeps join_infra_fields)
    then show "json_field ?rec ''org'' = (if inf_Org info = [] then None else Some (JStr (inf_Org info)))"
      by (simp add: json_field_org)
  next
    assume "map_of (index le) (Input hRes) = None"
    then have "Asn ?res = []"
      by (simp add: final_Result_keeps join_infra_fields)
    then show "json_field ?rec ''asn'' = None"
      by (simp add: json_field_asn)
  next
    assume "map_of (index le) (Input hRes) = None"
    then have "Org ?res = []"
      by (simp add: final_Result_keeps join_infra_fields)
    then show "json_field ?rec ''org'' = None"
      by (simp add: json_field_org)
  qed
qed

theorem infra_join_fields_witness:
  "Unmarshal_HttpxResult (JSON (JObj [(''input'', JStr ''a.example.com''), (''status_code'', JNum 200)]))
     = Some \<lparr>Input = ''a.example.com'', Url = [], hx_StatusCode = 200, hx_Title = [], Tech = [],
             WebServer = []\<rparr>
   \<and> map_of [(''a.example.com'', \<lparr>inf_Asn = 64500, inf_Org = ''Example Net''\<rparr>)] ''a.example.com''
       = Some \<lparr>inf_Asn = 64500, inf_Org = ''Example Net''\<rparr>
   \<and> (\<exists>rec. stdout (process_line
          \<lparr>prog = ''recon-engine'', useDeep = True, useFingerprint = False, args = [''example.com'']\<rparr>
          (JSON (JObj [(''input'', JStr ''a.example.com''), (''status_code'', JNum 200)]),
           \<lparr>clock = \<lparr>year = 2026, month = 10, day = 30, hour = 9, minute = 5, second = 0,
                      zone_offset = 0\<rparr>,
            index = [(''a.example.com'', \<lparr>inf_Asn = 64500, inf_Org = ''Example Net''\<rparr>)],
            whatweb_out = Failed, range_rank = length\<rparr>)
          \<lparr>stdout = [], stderr = [], spawned = [], goroutines = [], exit_status = 0\<rparr>) = [rec]
        \<and> json_field rec ''subdomain'' = Some (JStr ''a.example.com'')
        \<and> json_field rec ''asn'' = Some (JStr ''AS64500'')
        \<and> json_field rec ''org'' = Some (JStr ''Example Net''))"
proof -
  let ?b = "JSON (JObj [(''input'', JStr ''a.example.com''), (''status_code'', JNum 200)])"
  let ?h = "\<lparr>Input = ''a.example.com'', Url = [], hx_StatusCode = 200, hx_Title = [], Tech = [],
             WebServer = []\<rparr>"
  let ?i = "\<lparr>inf_Asn = 64500, inf_Org = ''Example Net''\<rparr>"
  let ?c = "\<lparr>prog = ''recon-engine'', useDeep = True, useFingerprint = False, args = [''example.com'']\<rparr>"
  let ?le = "\<lparr>clock = \<lparr>year = 2026, month = 10, day = 30, hour = 9, minute = 5, second = 0,
                      zone_offset = 0\<rparr>,
             index = [(''a.example.com'', ?i)], whatweb_out = Failed, range_rank = length\<rparr>"
  let ?r = "\<lparr>stdout = [], stderr = [], spawned = [], goroutines = [], exit_status = 0\<rparr>"
  have u: "Unmarshal_HttpxResult ?b = Some ?h"
    by (simp add: Unmarshal_HttpxResult_def dec_struct_def HttpxResult_field_def lower_def
        dec_string_def dec_int_def zero_HttpxResult_def)
  have m: "map_of (index ?le) (Input ?h) = Some ?i"
    by simp
  have d: "Sprintf_d 64500 = ''64500''"
    by (simp add: Sprintf_d_def decimal.simps digit_char_def)
  from infra_join_fields [OF u, of ?c ?le ?r] obtain rec where
    o: "stdout (process_line ?c (?b, ?le) ?r) = stdout ?r @ [rec]"
    and s: "json_field rec ''subdomain'' = Some (JStr (Input ?h))"
    and a: "\<forall>info. map_of (index ?le) (Input ?h) = Some info \<longrightarrow>
                  json_field rec ''asn'' = Some (JStr (''AS'' @ Sprintf_d (inf_Asn info)))
                  \<and> ''AS'' @ Sprintf_d (inf_Asn info) \<noteq> []
                  \<and> (\<forall>n. ''AS'' @ Sprintf_d n = ''AS'' @ Sprintf_d (inf_Asn info) \<longrightarrow> n = inf_Asn info)
                  \<and> json_field rec ''org'' =
                      (if inf_Org info = [] then None else Some (JStr (inf_Org info)))"
    by (elim exE conjE)
  note f = a [rule_format, OF m]
  from f [THEN conjunct1] d have "json_field rec ''asn'' = Some (JStr ''AS64500'')"
    by simp
  moreover from f [THEN conjunct2, THEN conjunct2, THEN conjunct2]
  have "json_field rec ''org'' = Some (JStr ''Example Net'')"
    by simp
  moreover from o have "stdout (process_line ?c (?b, ?le) ?r) = [rec]"
    by simp
  moreover from s have "json_field rec ''subdomain'' = Some (JStr ''a.example.com'')"
    by simp
  ultimately have "\<exists>rec. stdout (process_line ?c (?b, ?le) ?r) = [rec]
        \<and> json_field rec ''subdomain'' = Some (JStr ''a.example.com'')
        \<and> json_field rec ''asn'' = Some (JStr ''AS64500'')
        \<and> json_field rec ''org'' = Some (JStr ''Example Net'')"
    by (intro exI [of _ rec] conjI)
  with u show ?thesis
    by (intro conjI) simp_all
qed

text \<open>
  C6. For a line of httpx output that decodes, whatweb is run exactly when \<open>-fingerprint\<close>
  is set and the status code is positive, with the record's URL as its last argument. If
  the run of whatweb fails, or its output does not decode, or decodes to an empty array,
  the record that reaches the encoder is the one built from the httpx line and the
  infrastructure index: \<open>Versions\<close> is nil, so no \<open>versions\<close> field is written, and the
  technology list is the one httpx reported.
\<close>

theorem enrichment_guard_and_failure:
  assumes "Unmarshal_HttpxResult b = Some hRes"
  shows "spawned (process_line c (b, le) r) =
           spawned r
           @ (if useFingerprint c \<and> hx_StatusCode hRes > 0
              then [[''whatweb'', ''--aggression'', ''3'', ''--format=json'', Url hRes]] else [])
         \<and> (whatweb_out le = Failed
              \<or> (\<exists>out. whatweb_out le = Stdout out
                    \<and> (Unmarshal_WhatWebResults out = None \<or> Unmarshal_WhatWebResults out = Some []))
             \<longrightarrow>
               final_Result (useFingerprint c) le hRes
                 = join_infra (index le) hRes (new_Result (clock le) hRes)
               \<and> Versions (final_Result (useFingerprint c) le hRes) = None
               \<and> TechStack (final_Result (useFingerprint c) le hRes) = Tech hRes
               \<and> stdout (process_line c (b, le) r) =
                   stdout r @ [encode_Result (join_infra (index le) hRes (new_Result (clock le) hRes))]
               \<and> json_field (encode_Result (final_Result (useFingerprint c) le hRes)) ''versions''
                   = None
               \<and> stderr (process_line c (b, le) r) = stderr r
               \<and> exit_status (process_line c (b, le) r) = exit_status r)"
proof (intro conjI impI)
  from assms show "spawned (process_line c (b, le) r) =
           spawned r
           @ (if useFingerprint c \<and> hx_StatusCode hRes > 0
              then [[''whatweb'', ''--aggression'', ''3'', ''--format=json'', Url hRes]] else [])"
    by (simp add: process_line_def fingerprinted_def whatweb_argv_def)
next
  assume fail: "whatweb_out le = Failed
      \<or> (\<exists>out. whatweb_out le = Stdout out
            \<and> (Unmarshal_WhatWebResults out = None \<or> Unmarshal_WhatWebResults out = Some []))"
  let ?base = "join_infra (index le) hRes (new_Result (clock le) hRes)"
  from fail have "apply_whatweb le ?base = ?base"
    by (rule enrichment_failure_unmodified)
  then show eq: "final_Result (useFingerprint c) le hRes = ?base"
    by (simp add: final_Result_def Let_def)
  have v: "Versions ?base = None" and t: "TechStack ?base = Tech hRes"
    by (simp_all add: join_infra_def new_Result_def extractTech_def split: option.splits)
  from eq v show "Versions (final_Result (useFingerprint c) le hRes) = None"
    by simp
  from eq t show "TechStack (final_Result (useFingerprint c) le hRes) = Tech hRes"
    by simp
  from assms eq show "stdout (process_line c (b, le) r) = stdout r @ [encode_Result ?base]"
    by (simp add: process_line_def)
  from eq v show "json_field (encode_Result (final_Result (useFingerprint c) le hRes)) ''versions'' = None"
    by (simp add: json_field_versions_None)
  from assms show "stderr (process_line c (b, le) r) = stderr r"
    by (simp add: process_line_def)
  from assms show "exit_status (process_line c (b, le) r) = exit_status r"
    by (simp add: process_line_def)
qed

theorem enrichment_guard_and_failure_witness:
  "Unmarshal_HttpxResult (JSON (JObj [(''input'', JStr ''a.example.com''),
       (''url'', JStr ''https://a.example.com''), (''status_code'', JNum 200),
       (''tech'', JArr [JStr ''nginx''])]))
     = Some \<lparr>Input = ''a.example.com'', Url = ''https://a.example.com'', hx_StatusCode = 200,
             hx_Title = [], Tech = [''nginx''], WebServer = []\<rparr>
   \<and> Unmarshal_WhatWebResults NotJSON = None
   \<and> spawned (process_line
        \<lparr>prog = ''recon-engine'', useDeep = False, useFingerprint = True, args = [''example.com'']\<rparr>
        (JSON (JObj [(''input'', JStr ''a.example.com''), (''url'', JStr ''https://a.example.com''),
                     (''status_code'', JNum 200), (''tech'', JArr [JStr ''nginx''])]),
         \<lparr>clock = \<lparr>year = 2026, month = 10, day = 30, hour = 9, minute = 5, second = 0,
                    zone_offset = 0\<rparr>,
          index = [], whatweb_out = Stdout NotJSON, range_rank = length\<rparr>)
        \<lparr>stdout = [], stderr = [], spawned = [], goroutines = [], exit_status = 0\<rparr>)
       = [[''whatweb'', ''--aggression'', ''3'', ''--format=json'', ''https://a.example.com'']]
   \<and> TechStack (final_Result True
        \<lparr>clock = \<lparr>year = 2026, month = 10, day = 30, hour = 9, minute = 5, second = 0,
                   zone_offset = 0\<rparr>,
         index = [], whatweb_out = Stdout NotJSON, range_rank = length\<rparr>
        \<lparr>Input = ''a.example.com'', Url = ''https://a.example.com'', hx_StatusCode = 200,
         hx_Title = [], Tech = [''nginx''], WebServer = []\<rparr>) = [''nginx'']
   \<and> Versions (final_Result True
        \<lparr>clock = \<lparr>year = 2026, month = 10, day = 30, hour = 9, minute = 5, second = 0,
                   zone_offset = 0\<rparr>,
         index = [], whatweb_out = Stdout NotJSON, range_rank = length\<rparr>
        \<lparr>Input = ''a.example.com'', Url = ''https://a.example.com'', hx_StatusCode = 200,
         hx_Title = [], Tech = [''nginx''], WebServer = []\<rparr>) = None"
proof -
  let ?b = "JSON (JObj [(''input'', JStr ''a.example.com''), (''url'', JStr ''https://a.example.com''),
                     (''status_code'', JNum 200), (''tech'', JArr [JStr ''nginx''])])"
  let ?h = "\<lparr>Input = ''a.example.com'', Url = ''https://a.example.com'', hx_StatusCode = 200,
             hx_Title = [], Tech = [''nginx''], WebServer = []\<rparr>"
  let ?c = "\<lparr>prog = ''recon-engine'', useDeep = False, useFingerprint = True, args = [''example.com'']\<rparr>"
  let ?le = "\<lparr>clock = \<lparr>year = 2026, month = 10, day = 30, hour = 9, minute = 5, second = 0,
                      zone_offset = 0\<rparr>,
             index = [], whatweb_out = Stdout NotJSON, range_rank = length\<rparr>"
  let ?r = "\<lparr>stdout = [], stderr = [], spawned = [], goroutines = [], exit_status = 0\<rparr>"
  have u: "Unmarshal_HttpxResult ?b = Some ?h"
    by (simp add: Unmarshal_HttpxResult_def dec_struct_def dec_slice_def HttpxResult_field_def
        lower_def dec_string_def dec_int_def zero_HttpxResult_def)
  have w: "Unmarshal_WhatWebResults NotJSON = None"
    by (simp add: Unmarshal_WhatWebResults_def)
  then have f: "whatweb_out ?le = Failed
      \<or> (\<exists>out. whatweb_out ?le = Stdout out
            \<and> (Unmarshal_WhatWebResults out = None \<or> Unmarshal_WhatWebResults out = Some []))"
    by simp
  note inst = enrichment_guard_and_failure [OF u, of ?c ?le ?r]
  from inst [THEN conjunct1]
  have 1: "spawned (process_line ?c (?b, ?le) ?r)
           = [[''whatweb'', ''--aggression'', ''3'', ''--format=json'', ''https://a.example.com'']]"
    by simp
  note g = inst [THEN conjunct2, THEN mp, OF f]
  from g [THEN conjunct2, THEN conjunct1]
  have 2: "Versions (final_Result True ?le ?h) = None"
    by simp
  from g [THEN conjunct2, THEN conjunct2, THEN conjunct1]
  have 3: "TechStack (final_Result True ?le ?h) = [''nginx'']"
    by simp
  from u w 1 2 3 show ?thesis
    by (intro conjI)
qed

lemma amass_line_undecodable: "Unmarshal_AmassResult line = None \<Longrightarrow> amass_line line = []"
  by (simp add: amass_line_def)

lemma line_undecodable:
  "Unmarshal_HttpxResult (fst l) = None \<Longrightarrow> line_records c l = [] \<and> line_spawns c l = []"
  by (simp add: line_records_def line_spawns_def)

lemma main_go_lines_cong:
  assumes "concat (map (line_records c) ls) = concat (map (line_records c) ls')"
    and "concat (map (line_spawns c) ls) = concat (map (line_spawns c) ls')"
  shows "main_go c (e\<lparr>httpx_lines := ls\<rparr>) = main_go c (e\<lparr>httpx_lines := ls'\<rparr>)"
  using assms
  by (simp add: main_go_def checkBinaries_def httpx_loop_adds Let_def
      split: list.split option.split)

text \<open>
  C8. A line that fails to decode is skipped and the loop goes on, at each of the three
  decode points. Discovery: an amass line that does not decode sends nothing and stores
  nothing, and the goroutine does what it would do without that line. Transform: a line of
  httpx output that does not decode leaves the run as it is (no record, nothing on standard
  error, exit status unchanged), and the whole run of \<open>main\<close> is the run without that
  line. Enrichment: when the output of whatweb does not decode, the record of that host is
  emitted as built from the httpx line, nothing is written to standard error, the exit
  status is unchanged and the loop continues with the remaining lines.
\<close>

theorem undecodable_lines_are_skipped:
  "(Unmarshal_AmassResult line = None \<longrightarrow>
      amass_line line = []
      \<and> amass_task (Lines (pre @ line # post)) = amass_task (Lines (pre @ post)))
   \<and> (Unmarshal_HttpxResult (fst l) = None \<longrightarrow>
        process_line c l r = r
        \<and> httpx_loop c (ls @ l # ls') r = httpx_loop c (ls @ ls') r
        \<and> main_go c (e\<lparr>httpx_lines := ls @ l # ls'\<rparr>) = main_go c (e\<lparr>httpx_lines := ls @ ls'\<rparr>))
   \<and> (Unmarshal_HttpxResult b = Some hRes \<and> whatweb_out le = Stdout out
        \<and> Unmarshal_WhatWebResults out = None \<longrightarrow>
        httpx_loop c ((b, le) # ls') r =
          httpx_loop c ls'
            (r\<lparr>stdout := stdout r
                   @ [encode_Result (join_infra (index le) hRes (new_Result (clock le) hRes))],
               spawned := spawned r
                   @ (if fingerprinted (useFingerprint c) hRes then [whatweb_argv hRes] else [])\<rparr>))"
proof (intro conjI impI)
  assume "Unmarshal_AmassResult line = None"
  then show a: "amass_line line = []"
    by (rule amass_line_undecodable)
  then show "amass_task (Lines (pre @ line # post)) = amass_task (Lines (pre @ post))"
    by (simp add: amass_task_def)
next
  assume u: "Unmarshal_HttpxResult (fst l) = None"
  then show "process_line c l r = r"
    by (simp add: process_line_def)
  from line_undecodable [OF u, of c]
  have rec: "concat (map (line_records c) (ls @ l # ls')) = concat (map (line_records c) (ls @ ls'))"
    and sp: "concat (map (line_spawns c) (ls @ l # ls')) = concat (map (line_spawns c) (ls @ ls'))"
    by simp_all
  then show "httpx_loop c (ls @ l # ls') r = httpx_loop c (ls @ ls') r"
    by (simp only: httpx_loop_adds)
  from rec sp show "main_go c (e\<lparr>httpx_lines := ls @ l # ls'\<rparr>) = main_go c (e\<lparr>httpx_lines := ls @ ls'\<rparr>)"
    by (rule main_go_lines_cong)
next
  assume h: "Unmarshal_HttpxResult b = Some hRes \<and> whatweb_out le = Stdout out
        \<and> Unmarshal_WhatWebResults out = None"
  then have "apply_whatweb le (join_infra (index le) hRes (new_Result (clock le) hRes))
             = join_infra (index le) hRes (new_Result (clock le) hRes)"
    by (simp add: apply_whatweb_def)
  then have "final_Result (useFingerprint c) le hRes
             = join_infra (index le) hRes (new_Result (clock le) hRes)"
    by (simp add: final_Result_def Let_def)
  with h show "httpx_loop c ((b, le) # ls') r =
          httpx_loop c ls'
            (r\<lparr>stdout := stdout r
                   @ [encode_Result (join_infra (index le) hRes (new_Result (clock le) hRes))],
               spawned := spawned r
                   @ (if fingerprinted (useFingerprint c) hRes then [whatweb_argv hRes] else [])\<rparr>)"
    by (simp add: process_line_def)
qed

theorem undecodable_lines_are_skipped_witness:
  "Unmarshal_AmassResult NotJSON = None
   \<and> amass_task (Lines ([JSON (JObj [(''name'', JStr ''a.example.com'')])] @ NotJSON # []))
       = amass_task (Lines ([JSON (JObj [(''name'', JStr ''a.example.com'')])] @ []))
   \<and> Unmarshal_HttpxResult NotJSON = None
   \<and> main_go \<lparr>prog = ''recon-engine'', useDeep = True, useFingerprint = True, args = [''example.com'']\<rparr>
        (\<lparr>on_path = [''subfinder'', ''httpx'', ''nmap'', ''amass'', ''whatweb''],
          stdin_pipe_err = None, stdout_pipe_err = None, httpx_start_err = None,
          nmap_start_err = None, httpx_lines = []\<rparr>
         \<lparr>httpx_lines := [] @ (NotJSON,
            \<lparr>clock = \<lparr>year = 2026, month = 10, day = 30, hour = 9, minute = 5, second = 0,
                       zone_offset = 0\<rparr>,
             index = [], whatweb_out = Stdout NotJSON, range_rank = length\<rparr>) # []\<rparr>)
       = main_go \<lparr>prog = ''recon-engine'', useDeep = True, useFingerprint = True, args = [''example.com'']\<rparr>
        (\<lparr>on_path = [''subfinder'', ''httpx'', ''nmap'', ''amass'', ''whatweb''],
          stdin_pipe_err = None, stdout_pipe_err = None, httpx_start_err = None,
          nmap_start_err = None, httpx_lines = []\<rparr>
         \<lparr>httpx_lines := [] @ []\<rparr>)
   \<and> Unmarshal_HttpxResult (JSON (JObj [(''input'', JStr ''a.example.com''),
         (''url'', JStr ''https://a.example.com''), (''status_code'', JNum 200)]))
       = Some \<lparr>Input = ''a.example.com'', Url = ''https://a.example.com'', hx_StatusCode = 200,
               hx_Title = [], Tech = [], WebServer = []\<rparr>
   \<and> Unmarshal_WhatWebResults NotJSON = None
   \<and> stdout (httpx_loop
        \<lparr>prog = ''recon-engine'', useDeep = True, useFingerprint = True, args = [''example.com'']\<rparr>
        [(JSON (JObj [(''input'', JStr ''a.example.com''), (''url'', JStr ''https://a.example.com''),
                      (''status_code'', JNum 200)]),
          \<lparr>clock = \<lparr>year = 2026, month = 10, day = 30, hour = 9, minute = 5, second = 0,
                     zone_offset = 0\<rparr>,
           index = [], whatweb_out = Stdout NotJSON, range_rank = length\<rparr>)]
        \<lparr>stdout = [], stderr = [], spawned = [], goroutines = [], exit_status = 0\<rparr>)
       = [JObj [(''timestamp'', JStr ''2026-10-30T09:05:00Z''),
                (''subdomain'', JStr ''a.example.com''),
                (''status_code'', JNum 200),
                (''title'', JStr []),
                (''tech_stack'', JNull),
                (''vulnerabilities'', JArr []),
                (''source'', JStr ''recon_pipeline'')]]"
proof -
  let ?c = "\<lparr>prog = ''recon-engine'', useDeep = True, useFingerprint = True, args = [''example.com'']\<rparr>"
  let ?e = "\<lparr>on_path = [''subfinder'', ''httpx'', ''nmap'', ''amass'', ''whatweb''],
          stdin_pipe_err = None, stdout_pipe_err = None, httpx_start_err = None,
          nmap_start_err = None, httpx_lines = []\<rparr>"
  let ?le = "\<lparr>clock = \<lparr>year = 2026, month = 10, day = 30, hour = 9, minute = 5, second = 0,
                       zone_offset = 0\<rparr>,
             index = [], whatweb_out = Stdout NotJSON, range_rank = length\<rparr>"
  let ?b = "JSON (JObj [(''input'', JStr ''a.example.com''), (''url'', JStr ''https://a.example.com''),
                      (''status_code'', JNum 200)])"
  let ?h = "\<lparr>Input = ''a.example.com'', Url = ''https://a.example.com'', hx_StatusCode = 200,
               hx_Title = [], Tech = [], WebServer = []\<rparr>"
  let ?r = "\<lparr>stdout = [], stderr = [], spawned = [], goroutines = [], exit_status = 0\<rparr>"
  have a: "Unmarshal_AmassResult NotJSON = None"
    by (simp add: Unmarshal_AmassResult_def)
  have x: "Unmarshal_HttpxResult (fst (NotJSON, ?le)) = None"
    by (simp add: Unmarshal_HttpxResult_def)
  have u: "Unmarshal_HttpxResult ?b = Some ?h"
    by (simp add: Unmarshal_HttpxResult_def dec_struct_def HttpxResult_field_def lower_def
        dec_string_def dec_int_def zero_HttpxResult_def)
  have w: "Unmarshal_WhatWebResults NotJSON = None"
    by (simp add: Unmarshal_WhatWebResults_def)
  have hyp: "Unmarshal_HttpxResult ?b = Some ?h \<and> whatweb_out ?le = Stdout NotJSON
        \<and> Unmarshal_WhatWebResults NotJSON = None"
    using u w by simp
  note inst = undecodable_lines_are_skipped
    [where line = NotJSON and pre = "[JSON (JObj [(''name'', JStr ''a.example.com'')])]"
       and post = "[]" and l = "(NotJSON, ?le)" and c = ?c and r = ?r and ls = "[]" and ls' = "[]"
       and e = ?e and b = ?b and hRes = ?h and le = ?le and out = NotJSON]
  from inst [THEN conjunct1, THEN mp, OF a, THEN conjunct2]
  have 1: "amass_task (Lines ([JSON (JObj [(''name'', JStr ''a.example.com'')])] @ NotJSON # []))
       = amass_task (Lines ([JSON (JObj [(''name'', JStr ''a.example.com'')])] @ []))" .
  from inst [THEN conjunct2, THEN conjunct1, THEN mp, OF x, THEN conjunct2, THEN conjunct2]
  have 2: "main_go ?c (?e\<lparr>httpx_lines := [] @ (NotJSON, ?le) # []\<rparr>)
           = main_go ?c (?e\<lparr>httpx_lines := [] @ []\<rparr>)" .
  from inst [THEN conjunct2, THEN conjunct2, THEN mp, OF hyp]
  have "stdout (httpx_loop ?c [(?b, ?le)] ?r)
        = [encode_Result (join_infra (index ?le) ?h (new_Result (clock ?le) ?h))]"
    by simp
  also have "\<dots> = [JObj [(''timestamp'', JStr ''2026-10-30T09:05:00Z''),
                (''subdomain'', JStr ''a.example.com''),
                (''status_code'', JNum 200),
                (''title'', JStr []),
                (''tech_stack'', JNull),
                (''vulnerabilities'', JArr []),
                (''source'', JStr ''recon_pipeline'')]]"
    by (simp add: join_infra_def new_Result_def extractTech_def encode_Result_def
        format_RFC3339_def appendInt_def format_zone_def decimal.simps digit_char_def)
  finally have 3: "stdout (httpx_loop ?c [(?b, ?le)] ?r)
        = [JObj [(''timestamp'', JStr ''2026-10-30T09:05:00Z''),
                (''subdomain'', JStr ''a.example.com''),
                (''status_code'', JNum 200),
                (''title'', JStr []),
                (''tech_stack'', JNull),
                (''vulnerabilities'', JArr []),
                (''source'', JStr ''recon_pipeline'')]]" .
  from x have x': "Unmarshal_HttpxResult NotJSON = None"
    by simp
  from a 1 x' 2 u w 3 show ?thesis
    by (intro conjI)
qed

text \<open>
  C9. With fingerprinting off, the line
  \<open>{"input":"a.example.com","url":"https://a.example.com","status_code":200,"title":"T","tech":["nginx"]}\<close>
  adds exactly one object to standard output. Its \<open>subdomain\<close> is \<open>a.example.com\<close>, its
  \<open>status_code\<close> 200, its \<open>title\<close> \<open>T\<close>, its \<open>tech_stack\<close> the array of \<open>nginx\<close>, its
  \<open>vulnerabilities\<close> the empty array, its \<open>source\<close> \<open>recon_pipeline\<close> and, for a clock
  reading with calendar fields in range, its \<open>timestamp\<close> a string of the RFC 3339 shape; no
  \<open>versions\<close> field is written and no command is run.
\<close>

theorem example_line_record:
  assumes "\<not> useFingerprint c" and "valid_Time (clock le)"
  shows "\<exists>rec ts. process_line c
             (JSON (JObj [(''input'', JStr ''a.example.com''),
                          (''url'', JStr ''https://a.example.com''),
                          (''status_code'', JNum 200),
                          (''title'', JStr ''T''),
                          (''tech'', JArr [JStr ''nginx''])]), le) r
           = r\<lparr>stdout := stdout r @ [rec]\<rparr>
         \<and> json_field rec ''subdomain'' = Some (JStr ''a.example.com'')
         \<and> json_field rec ''status_code'' = Some (JNum 200)
         \<and> json_field rec ''title'' = Some (JStr ''T'')
         \<and> json_field rec ''tech_stack'' = Some (JArr [JStr ''nginx''])
         \<and> json_field rec ''vulnerabilities'' = Some (JArr [])
         \<and> json_field rec ''source'' = Some (JStr ''recon_pipeline'')
         \<and> json_field rec ''versions'' = None
         \<and> json_field rec ''timestamp'' = Some (JStr ts) \<and> is_RFC3339 ts"
proof -
  let ?b = "JSON (JObj [(''input'', JStr ''a.example.com''),
                          (''url'', JStr ''https://a.example.com''),
                          (''status_code'', JNum 200),
                          (''title'', JStr ''T''),
                          (''tech'', JArr [JStr ''nginx''])])"
  let ?h = "\<lparr>Input = ''a.example.com'', Url = ''https://a.example.com'', hx_StatusCode = 200,
             hx_Title = ''T'', Tech = [''nginx''], WebServer = []\<rparr>"
  let ?res = "final_Result (useFingerprint c) le ?h"
  let ?rec = "encode_Result ?res"
  have u: "Unmarshal_HttpxResult ?b = Some ?h"
    by (simp add: Unmarshal_HttpxResult_def dec_struct_def dec_slice_def HttpxResult_field_def
        lower_def dec_string_def dec_int_def zero_HttpxResult_def)
  from assms(1) have res: "?res = join_infra (index le) ?h (new_Result (clock le) ?h)"
    by (simp add: final_Result_def fingerprinted_def)
  have f: "Subdomain ?res = ''a.example.com''" "StatusCode ?res = 200" "Title ?res = ''T''"
    "TechStack ?res = [''nginx'']" "Vulnerabilities ?res = []" "Source ?res = ''recon_pipeline''"
    "Versions ?res = None" "Timestamp ?res = format_RFC3339 (clock le)"
    unfolding res
    by (simp_all add: join_infra_def new_Result_def extractTech_def split: option.splits)
  from u assms(1) have "process_line c (?b, le) r = r\<lparr>stdout := stdout r @ [?rec]\<rparr>"
    by (simp add: process_line_def fingerprinted_def)
  moreover have "json_field ?rec ''subdomain'' = Some (JStr ''a.example.com'')"
    "json_field ?rec ''status_code'' = Some (JNum 200)"
    "json_field ?rec ''title'' = Some (JStr ''T'')"
    "json_field ?rec ''tech_stack'' = Some (JArr [JStr ''nginx''])"
    "json_field ?rec ''vulnerabilities'' = Some (JArr [])"
    "json_field ?rec ''source'' = Some (JStr ''recon_pipeline'')"
    "json_field ?rec ''timestamp'' = Some (JStr (format_RFC3339 (clock le)))"
    by (simp_all only: json_field_fixed f) simp_all
  moreover from f(7) have "json_field ?rec ''versions'' = None"
    by (rule json_field_versions_None)
  moreover from assms(2) have "is_RFC3339 (format_RFC3339 (clock le))"
    by (rule is_RFC3339_format)
  ultimately show ?thesis
    by (intro exI [of _ ?rec] exI [of _ "format_RFC3339 (clock le)"] conjI)
qed

theorem example_line_record_witness:
  "\<not> useFingerprint \<lparr>prog = ''recon-engine'', useDeep = False, useFingerprint = False,
                      args = [''example.com'']\<rparr>
   \<and> valid_Time \<lparr>year = 2026, month = 10, day = 30, hour = 9, minute = 5, second = 0,
                  zone_offset = - 18000\<rparr>
   \<and> (\<exists>rec ts. stdout (process_line
          \<lparr>prog = ''recon-engine'', useDeep = False, useFingerprint = False, args = [''example.com'']\<rparr>
          (JSON (JObj [(''input'', JStr ''a.example.com''),
                       (''url'', JStr ''https://a.example.com''),
                       (''status_code'', JNum 200),
                       (''title'', JStr ''T''),
                       (''tech'', JArr [JStr ''nginx''])]),
           \<lparr>clock = \<lparr>year = 2026, month = 10, day = 30, hour = 9, minute = 5, second = 0,
                      zone_offset = - 18000\<rparr>,
            index = [], whatweb_out = Failed, range_rank = length\<rparr>)
          \<lparr>stdout = [], stderr = [], spawned = [], goroutines = [], exit_status = 0\<rparr>) = [rec]
        \<and> json_field rec ''subdomain'' = Some (JStr ''a.example.com'')
        \<and> json_field rec ''tech_stack'' = Some (JArr [JStr ''nginx''])
        \<and> json_field rec ''timestamp'' = Some (JStr ts) \<and> is_RFC3339 ts)
   \<and> format_RFC3339 \<lparr>year = 2026, month = 10, day = 30, hour = 9, minute = 5, second = 0,
                      zone_offset = - 18000\<rparr> = ''2026-10-30T09:05:00-05:00''"
proof -
  let ?c = "\<lparr>prog = ''recon-engine'', useDeep = False, useFingerprint = False, args = [''example.com'']\<rparr>"
  let ?t = "\<lparr>year = 2026, month = 10, day = 30, hour = 9, minute = 5, second = 0,
             zone_offset = - 18000\<rparr>"
  let ?le = "\<lparr>clock = ?t, index = [], whatweb_out = Failed, range_rank = length\<rparr>"
  let ?r = "\<lparr>stdout = [], stderr = [], spawned = [], goroutines = [], exit_status = 0\<rparr>"
  let ?b = "JSON (JObj [(''input'', JStr ''a.example.com''),
                       (''url'', JStr ''https://a.example.com''),
                       (''status_code'', JNum 200),
                       (''title'', JStr ''T''),
                       (''tech'', JArr [JStr ''nginx''])])"
  have f: "\<not> useFingerprint ?c"
    by simp
  have v: "valid_Time ?t"
    by (simp add: valid_Time_def)
  then have v': "valid_Time (clock ?le)"
    by simp
  from example_line_record [OF f v', of ?r] obtain rec ts where
    p: "process_line ?c (?b, ?le) ?r = ?r\<lparr>stdout := stdout ?r @ [rec]\<rparr>"
    and j: "json_field rec ''subdomain'' = Some (JStr ''a.example.com'')"
      "json_field rec ''tech_stack'' = Some (JArr [JStr ''nginx''])"
      "json_field rec ''timestamp'' = Some (JStr ts)" "is_RFC3339 ts"
    by (elim exE conjE)
  from p have "stdout (process_line ?c (?b, ?le) ?r) = [rec]"
    by simp
  with j have e: "\<exists>rec ts. stdout (process_line ?c (?b, ?le) ?r) = [rec]
        \<and> json_field rec ''subdomain'' = Some (JStr ''a.example.com'')
        \<and> json_field rec ''tech_stack'' = Some (JArr [JStr ''nginx''])
        \<and> json_field rec ''timestamp'' = Some (JStr ts) \<and> is_RFC3339 ts"
    by (intro exI [of _ rec] exI [of _ ts] conjI)
  have t: "format_RFC3339 ?t = ''2026-10-30T09:05:00-05:00''"
    by (simp add: format_RFC3339_def appendInt_def format_zone_def decimal.simps digit_char_def)
  from f v e t show ?thesis
    by (intro conjI)
qed

end
